theory Spec2Isabelle
  imports Main
begin

section \<open>PURL helpers (purl.go)\<close>

text \<open>
  Modelled from the spec: \<^verbatim>\<open>packageurl.PackageURL\<close>, a struct of the external PURL library
  that is not among the sources. A PURL has an ecosystem type, an optional namespace, a
  name and an optional version; the helpers of purl.go read the fields \<open>Type\<close>,
  \<open>Namespace\<close>, \<open>Name\<close> and \<open>Version\<close>, where an absent part is the empty string.
  Qualifiers and subpath are carried along as plain data.
\<close>

record PackageURL =
  Type :: string
  Namespace :: string
  Name :: string
  Version :: string
  Qualifiers :: "(string \<times> string) list"
  Subpath :: string

text \<open>
  Modelled from the spec: the type tags \<^verbatim>\<open>packageurl.Type...\<close>, constants of the external PURL
  library that is not among the sources. purl.go uses them only as keys of its table and
  as labels of its switch; their values are the ecosystem tags of PURL texts.
\<close>

definition TypeAlpm :: string where "TypeAlpm = ''alpm''"
definition TypeApk :: string where "TypeApk = ''apk''"
definition TypeBitbucket :: string where "TypeBitbucket = ''bitbucket''"
definition TypeBitnami :: string where "TypeBitnami = ''bitnami''"
definition TypeBower :: string where "TypeBower = ''bower''"
definition TypeCargo :: string where "TypeCargo = ''cargo''"
definition TypeCarthage :: string where "TypeCarthage = ''carthage''"
definition TypeChef :: string where "TypeChef = ''chef''"
definition TypeChocolatey :: string where "TypeChocolatey = ''chocolatey''"
definition TypeClojars :: string where "TypeClojars = ''clojars''"
definition TypeCocoapods :: string where "TypeCocoapods = ''cocoapods''"
definition TypeComposer :: string where "TypeComposer = ''composer''"
definition TypeConan :: string where "TypeConan = ''conan''"
definition TypeConda :: string where "TypeConda = ''conda''"
definition TypeCpan :: string where "TypeCpan = ''cpan''"
definition TypeCran :: string where "TypeCran = ''cran''"
definition TypeDocker :: string where "TypeDocker = ''docker''"
definition TypeElm :: string where "TypeElm = ''elm''"
definition TypeGem :: string where "TypeGem = ''gem''"
definition TypeGeneric :: string where "TypeGeneric = ''generic''"
definition TypeGithub :: string where "TypeGithub = ''github''"
definition TypeGolang :: string where "TypeGolang = ''golang''"
definition TypeHackage :: string where "TypeHackage = ''hackage''"
definition TypeHex :: string where "TypeHex = ''hex''"
definition TypeHuggingface :: string where "TypeHuggingface = ''huggingface''"
definition TypeMaven :: string where "TypeMaven = ''maven''"
definition TypeNPM :: string where "TypeNPM = ''npm''"
definition TypeNuget :: string where "TypeNuget = ''nuget''"
definition TypeOCI :: string where "TypeOCI = ''oci''"
definition TypePub :: string where "TypePub = ''pub''"
definition TypePyPi :: string where "TypePyPi = ''pypi''"
definition TypeRPM :: string where "TypeRPM = ''rpm''"
definition TypeSwift :: string where "TypeSwift = ''swift''"

text \<open>
  The map literal \<^verbatim>\<open>purlTypeToRegistry\<close>, entry by entry in the order of the source.
  A Go map literal has no duplicate constant keys, so the association list is read with
  \<open>map_of\<close>.
\<close>

definition purlTypeToRegistry_entries :: "(string \<times> string) list" where
  "purlTypeToRegistry_entries =
    [(TypeAlpm, ''archlinux.org''),
     (TypeApk, ''alpine-edge''),
     (TypeBitbucket, ''''),
     (TypeBitnami, ''''),
     (TypeBower, ''bower.io''),
     (TypeCargo, ''crates.io''),
     (TypeCarthage, ''carthage''),
     (TypeChef, ''supermarket.chef.io''),
     (TypeChocolatey, ''chocolatey.org''),
     (TypeClojars, ''clojars.org''),
     (TypeCocoapods, ''cocoapods.org''),
     (TypeComposer, ''packagist.org''),
     (TypeConan, ''conan.io''),
     (TypeConda, ''anaconda.org''),
     (TypeCpan, ''metacpan.org''),
     (TypeCran, ''cran.r-project.org''),
     (TypeDocker, ''hub.docker.com''),
     (TypeElm, ''package.elm-lang.org''),
     (TypeGem, ''rubygems.org''),
     (TypeGeneric, ''''),
     (TypeGithub, ''''),
     (TypeGolang, ''proxy.golang.org''),
     (TypeHackage, ''hackage.haskell.org''),
     (TypeHex, ''hex.pm''),
     (TypeHuggingface, ''''),
     (TypeMaven, ''repo1.maven.org''),
     (TypeNPM, ''npmjs.org''),
     (TypeNuget, ''nuget.org''),
     (TypeOCI, ''''),
     (TypePub, ''pub.dev''),
     (TypePyPi, ''pypi.org''),
     (TypeRPM, ''''),
     (TypeSwift, ''swiftpackageindex.com''),
     (''brew'', ''formulae.brew.sh''),
     (''deb'', ''debian''),
     (''julia'', ''juliahub.com''),
     (''puppet'', ''forge.puppet.com'')]"

definition purlTypeToRegistry :: "string \<rightharpoonup> string" where
  "purlTypeToRegistry = map_of purlTypeToRegistry_entries"

text \<open>Indexing a Go map with a missing key gives the zero value, the empty string.\<close>

definition PURLToRegistry :: "PackageURL \<Rightarrow> string" where
  "PURLToRegistry purl =
     (case purlTypeToRegistry (Type purl) of None \<Rightarrow> '''' | Some registry \<Rightarrow> registry)"

definition PURLToName :: "PackageURL \<Rightarrow> string" where
  "PURLToName purl =
     (let name = Name purl in
      if Namespace purl = '''' then name
      else if Type purl = TypeMaven then Namespace purl @ '':'' @ Name purl
      else if Type purl = TypeApk then name
      else Namespace purl @ ''/'' @ Name purl)"

text \<open>\<^verbatim>\<open>strings.HasPrefix\<close>: the first bytes of \<open>s\<close> are \<open>p\<close>.\<close>

definition HasPrefix :: "string \<Rightarrow> string \<Rightarrow> bool" where
  "HasPrefix s p = (take (length p) s = p)"

text \<open>
  \<^verbatim>\<open>packageurl.FromString\<close> belongs to the external PURL library: \<open>ParsePURL\<close> takes it
  as the parameter \<open>FromString\<close>, a function from the text to a parse error or a PURL.
\<close>

definition ParsePURL :: "(string \<Rightarrow> 'e + PackageURL) \<Rightarrow> string \<Rightarrow> 'e + PackageURL" where
  "ParsePURL FromString s =
     FromString (if \<not> HasPrefix s ''pkg:'' then ''pkg:'' @ s else s)"

section \<open>The client (client.go)\<close>

subsection \<open>Errors\<close>

text \<open>
  One constructor for each \<^verbatim>\<open>fmt.Errorf\<close> of client.go; a wrapped cause (\<^verbatim>\<open>%w\<close>) is kept
  as its message, a formatted status (\<^verbatim>\<open>%d\<close>) as the number.
\<close>

datatype error =
    UserAgentRequired
  | CreatingPackagesClient string
  | CreatingReposClient string
  | BulkLookupTransport string
  | BulkLookupFailedMessage string
  | BulkLookupFailedStatus int
  | LookupPackageTransport string
  | LookupFailedStatus int
  | GetVersionTransport string
  | GetVersionFailedStatus int
  | GetVersionsTransport string
  | GetVersionsFailedStatus int
  | LookupRepositoryTransport string
  | LookupRepositoryFailedStatus int

subsection \<open>Construction\<close>

record HTTPClient =
  MaxIdleConns :: nat
  MaxIdleConnsPerHost :: nat
  MaxConnsPerHost :: nat
  IdleConnTimeout :: nat
  DialTimeout :: nat
  DialKeepAlive :: nat
  TLSHandshakeTimeout :: nat
  ResponseHeaderTimeout :: nat
  ExpectContinueTimeout :: nat
  DisableCompression :: bool
  ForceAttemptHTTP2 :: bool
  Timeout :: nat

record clientConfig =
  packagesServer :: string
  reposServer :: string
  httpClient :: HTTPClient
  userAgent :: string
  fromEmail :: string
  apiKey :: string

type_synonym Option = "clientConfig \<Rightarrow> clientConfig"

definition DefaultPackagesServer :: string where
  "DefaultPackagesServer = ''https://packages.ecosyste.ms/api/v1''"

definition DefaultReposServer :: string where
  "DefaultReposServer = ''https://repos.ecosyste.ms/api/v1''"

text \<open>Durations are in seconds.\<close>

definition DefaultTimeout :: nat where
  "DefaultTimeout = 30"

definition WithPackagesServer :: "string \<Rightarrow> Option" where
  "WithPackagesServer server c = c\<lparr>packagesServer := server\<rparr>"

definition WithReposServer :: "string \<Rightarrow> Option" where
  "WithReposServer server c = c\<lparr>reposServer := server\<rparr>"

definition WithHTTPClient :: "HTTPClient \<Rightarrow> Option" where
  "WithHTTPClient client c = c\<lparr>httpClient := client\<rparr>"

definition WithFrom :: "string \<Rightarrow> Option" where
  "WithFrom email c = c\<lparr>fromEmail := email\<rparr>"

definition WithAPIKey :: "string \<Rightarrow> Option" where
  "WithAPIKey key c = c\<lparr>apiKey := key\<rparr>"

definition defaultHTTPClient :: HTTPClient where
  "defaultHTTPClient =
     \<lparr>MaxIdleConns = 100, MaxIdleConnsPerHost = 10, MaxConnsPerHost = 100,
      IdleConnTimeout = 90, DialTimeout = 10, DialKeepAlive = 30,
      TLSHandshakeTimeout = 10, ResponseHeaderTimeout = 30, ExpectContinueTimeout = 1,
      DisableCompression = False, ForceAttemptHTTP2 = True, Timeout = DefaultTimeout\<rparr>"

text \<open>The request editor of \<open>NewClient\<close>: \<^verbatim>\<open>Header.Set\<close> overwrites the header.\<close>

definition addHeaders :: "clientConfig \<Rightarrow> (string \<rightharpoonup> string) \<Rightarrow> (string \<rightharpoonup> string)" where
  "addHeaders cfg header =
     (let h1 = header(''User-Agent'' \<mapsto> userAgent cfg);
          h2 = (if fromEmail cfg \<noteq> [] then h1(''From'' \<mapsto> fromEmail cfg) else h1)
      in if apiKey cfg \<noteq> [] then h2(''Authorization'' \<mapsto> ''Bearer '' @ apiKey cfg) else h2)"

record ('pc, 'rc) Client =
  packagesClient :: 'pc
  reposClient :: 'rc
  Client_userAgent :: string

text \<open>
  The constructors of the two generated clients, \<^verbatim>\<open>packages.NewClientWithResponses\<close> and
  \<^verbatim>\<open>repos.NewClientWithResponses\<close>, are parameters: each takes the server address, the
  HTTP client and the request editor, and gives an error message or a client.
\<close>

type_synonym 'c client_constructor =
  "string \<Rightarrow> HTTPClient \<Rightarrow> ((string \<rightharpoonup> string) \<Rightarrow> (string \<rightharpoonup> string)) \<Rightarrow> string + 'c"

definition NewClient ::
  "'pc client_constructor \<Rightarrow> 'rc client_constructor \<Rightarrow> string \<Rightarrow> Option list \<Rightarrow>
   error + ('pc, 'rc) Client" where
  "NewClient newPackagesClient newReposClient ua opts =
     (if ua = [] then Inl UserAgentRequired
      else
        let cfg0 = \<lparr>packagesServer = DefaultPackagesServer, reposServer = DefaultReposServer,
                    httpClient = defaultHTTPClient, userAgent = ua,
                    fromEmail = [], apiKey = []\<rparr>;
            cfg = foldl (\<lambda>c opt. opt c) cfg0 opts
        in case newPackagesClient (packagesServer cfg) (httpClient cfg) (addHeaders cfg) of
             Inl err \<Rightarrow> Inl (CreatingPackagesClient err)
           | Inr pkgClient \<Rightarrow>
               (case newReposClient (reposServer cfg) (httpClient cfg) (addHeaders cfg) of
                  Inl err \<Rightarrow> Inl (CreatingReposClient err)
                | Inr repoClient \<Rightarrow>
                    Inr \<lparr>packagesClient = pkgClient, reposClient = repoClient,
                         Client_userAgent = userAgent cfg\<rparr>))"

subsection \<open>Calls to the backend\<close>

text \<open>
  Modelled from the spec: the response types of the generated clients, which are not among
  the sources. client.go reads \<^verbatim>\<open>StatusCode()\<close> and the decoded body \<^verbatim>\<open>JSON200\<close>, a pointer
  that may be nil; the bulk lookup response also has \<^verbatim>\<open>JSON400\<close>, a pointer to a body with
  an optional \<^verbatim>\<open>Error\<close> message.
\<close>

record 'a Response =
  StatusCode :: int
  JSON200 :: "'a option"

record ErrorBody =
  Error :: "string option"

record 'a BulkLookupPackagesResponse = "'a Response" +
  JSON400 :: "ErrorBody option"

text \<open>
  A method of a generated client (\<^verbatim>\<open>...WithResponse\<close>) is not among the sources and is a
  parameter of the operation that calls it: from the state of the backend and the request
  it gives the error of the transport or the response, and the next state of the backend.
  The world holds the state of the backend and the calls made so far, each with its
  answer; \<open>roundtrip\<close> is one call.
\<close>

type_synonym ('s, 'q, 'r) stub = "'s \<Rightarrow> 'q \<Rightarrow> (string + 'r) \<times> 's"

record ('s, 'q, 'r) world =
  backend :: 's
  calls :: "('q \<times> (string + 'r)) list"

definition init :: "'s \<Rightarrow> ('s, 'q, 'r) world" where
  "init s = \<lparr>backend = s, calls = []\<rparr>"

definition roundtrip ::
  "('s, 'q, 'r) stub \<Rightarrow> 'q \<Rightarrow> ('s, 'q, 'r) world \<Rightarrow> (string + 'r) \<times> ('s, 'q, 'r) world" where
  "roundtrip stub q w =
     (case stub (backend w) q of
        (r, s') \<Rightarrow> (r, \<lparr>backend = s', calls = calls w @ [(q, r)]\<rparr>))"

subsection \<open>BulkLookup\<close>

text \<open>
  Modelled from the spec: \<^verbatim>\<open>packages.PackageWithRegistry\<close>, a generated type that is not
  among the sources. \<open>BulkLookup\<close> reads its \<open>Purl\<close> field only; the name and the
  ecosystem stand for the rest of the record.
\<close>

record PackageWithRegistry =
  Purl :: string
  Package_Name :: string
  Ecosystem :: string

definition MaxBulkLookupSize :: nat where
  "MaxBulkLookupSize = 100"

type_synonym results = "string \<rightharpoonup> PackageWithRegistry"

type_synonym bulk_response = "PackageWithRegistry list BulkLookupPackagesResponse"

type_synonym 's bulk_world = "('s, string list, bulk_response) world"

text \<open>The inner loop: \<^verbatim>\<open>results[pkg.Purl] = &p\<close> for each package of the response.\<close>

definition store_packages :: "results \<Rightarrow> PackageWithRegistry list \<Rightarrow> results" where
  "store_packages results pkgs = foldl (\<lambda>m pkg. m(Purl pkg \<mapsto> pkg)) results pkgs"

text \<open>
  The loop of \<open>BulkLookup\<close> from index \<open>i\<close>. The slice \<^verbatim>\<open>purls[i:end]\<close> is
  \<open>take (end - i) (drop i purls)\<close>. The index is a Go \<^verbatim>\<open>int\<close>; it stays below the length
  of a slice plus 100 and is a \<open>nat\<close> here.
\<close>

function BulkLookup_loop ::
  "('s, string list, bulk_response) stub \<Rightarrow> string list \<Rightarrow> nat \<Rightarrow> results \<Rightarrow> 's bulk_world \<Rightarrow>
   (error + results) \<times> 's bulk_world" where
  "BulkLookup_loop stub purls i results w =
     (if i < length purls then
        let end = (if i + MaxBulkLookupSize > length purls then length purls
                   else i + MaxBulkLookupSize);
            batch = take (end - i) (drop i purls)
        in case roundtrip stub batch w of
             (Inl err, w') \<Rightarrow> (Inl (BulkLookupTransport err), w')
           | (Inr resp, w') \<Rightarrow>
               if StatusCode resp \<noteq> 200 then
                 (case JSON400 resp of
                    None \<Rightarrow> (Inl (BulkLookupFailedStatus (StatusCode resp)), w')
                  | Some body \<Rightarrow>
                      (case Error body of
                         None \<Rightarrow> (Inl (BulkLookupFailedStatus (StatusCode resp)), w')
                       | Some msg \<Rightarrow> (Inl (BulkLookupFailedMessage msg), w')))
               else
                 BulkLookup_loop stub purls (i + MaxBulkLookupSize)
                   (case JSON200 resp of
                      None \<Rightarrow> results
                    | Some pkgs \<Rightarrow> store_packages results pkgs) w'
      else (Inr results, w))"
  by pat_completeness auto
termination
  by (relation "measure (\<lambda>(stub, purls, i, results, w). length purls - i)")
     (auto simp: MaxBulkLookupSize_def)

declare BulkLookup_loop.simps [simp del]

definition BulkLookup ::
  "('s, string list, bulk_response) stub \<Rightarrow> string list \<Rightarrow> 's bulk_world \<Rightarrow>
   (error + results) \<times> 's bulk_world" where
  "BulkLookup stub purls w =
     (if length purls = 0 then (Inr Map.empty, w)
      else BulkLookup_loop stub purls 0 Map.empty w)"

text \<open>\<open>Lookup\<close>: a bulk lookup of one PURL, then \<^verbatim>\<open>results[purl]\<close> (nil when missing).\<close>

definition Lookup ::
  "('s, string list, bulk_response) stub \<Rightarrow> string \<Rightarrow> 's bulk_world \<Rightarrow>
   (error + PackageWithRegistry option) \<times> 's bulk_world" where
  "Lookup stub purl w =
     (case BulkLookup stub [purl] w of
        (Inl err, w') \<Rightarrow> (Inl err, w')
      | (Inr results, w') \<Rightarrow> (Inr (results purl), w'))"

subsection \<open>Single lookups\<close>

text \<open>
  The records \<^verbatim>\<open>packages.Package\<close>, \<^verbatim>\<open>packages.VersionWithDependencies\<close> and
  \<^verbatim>\<open>repos.Repository\<close> are passed through untouched: they are type variables. A nil
  pointer is \<open>None\<close>.
\<close>

definition LookupByRegistryAndName ::
  "('s, string \<times> string, 'p Response) stub \<Rightarrow> string \<Rightarrow> string \<Rightarrow>
   ('s, string \<times> string, 'p Response) world \<Rightarrow>
   (error + 'p option) \<times> ('s, string \<times> string, 'p Response) world" where
  "LookupByRegistryAndName stub registry name w =
     (case roundtrip stub (registry, name) w of
        (Inl err, w') \<Rightarrow> (Inl (LookupPackageTransport err), w')
      | (Inr resp, w') \<Rightarrow>
          if StatusCode resp = 404 then (Inr None, w')
          else if StatusCode resp \<noteq> 200 then (Inl (LookupFailedStatus (StatusCode resp)), w')
          else (Inr (JSON200 resp), w'))"

definition GetVersion ::
  "('s, string \<times> string \<times> string, 'v Response) stub \<Rightarrow> string \<Rightarrow> string \<Rightarrow> string \<Rightarrow>
   ('s, string \<times> string \<times> string, 'v Response) world \<Rightarrow>
   (error + 'v option) \<times> ('s, string \<times> string \<times> string, 'v Response) world" where
  "GetVersion stub registry name version w =
     (case roundtrip stub (registry, name, version) w of
        (Inl err, w') \<Rightarrow> (Inl (GetVersionTransport err), w')
      | (Inr resp, w') \<Rightarrow>
          if StatusCode resp = 404 then (Inr None, w')
          else if StatusCode resp \<noteq> 200 then
            (Inl (GetVersionFailedStatus (StatusCode resp)), w')
          else (Inr (JSON200 resp), w'))"

definition GetRepository ::
  "('s, string, 'r Response) stub \<Rightarrow> string \<Rightarrow> ('s, string, 'r Response) world \<Rightarrow>
   (error + 'r option) \<times> ('s, string, 'r Response) world" where
  "GetRepository stub url w =
     (case roundtrip stub url w of
        (Inl err, w') \<Rightarrow> (Inl (LookupRepositoryTransport err), w')
      | (Inr resp, w') \<Rightarrow>
          if StatusCode resp = 404 then (Inr None, w')
          else if StatusCode resp \<noteq> 200 then
            (Inl (LookupRepositoryFailedStatus (StatusCode resp)), w')
          else (Inr (JSON200 resp), w'))"

subsection \<open>GetAllVersions\<close>

text \<open>
  Modelled from the spec: \<^verbatim>\<open>packages.GetRegistryPackageVersionsParams\<close>, a generated type
  that is not among the sources; \<open>GetAllVersions\<close> sets its page number and page size.
\<close>

record GetRegistryPackageVersionsParams =
  Page :: int
  PerPage :: int

type_synonym versions_request = "string \<times> string \<times> GetRegistryPackageVersionsParams"

type_synonym ('s, 'v) versions_stub = "('s, versions_request, 'v list Response) stub"

type_synonym ('s, 'v) versions_world = "('s, versions_request, 'v list Response) world"

text \<open>
  The loop of \<open>GetAllVersions\<close>, which has no bound of its own: it ends when the backend
  answers with an error, a status other than 200, or a page that is empty or shorter than
  \<open>perPage\<close>. A run that never ends is \<open>None\<close>. The nil slice is the empty list; \<open>page\<close>
  and \<open>perPage\<close> are Go \<^verbatim>\<open>int\<close>s, unbounded here.
\<close>

partial_function (option) GetAllVersions_loop ::
  "('s, 'v) versions_stub \<Rightarrow> string \<Rightarrow> string \<Rightarrow> int \<Rightarrow> int \<Rightarrow> 'v list \<Rightarrow>
   ('s, 'v) versions_world \<Rightarrow> ((error + 'v list) \<times> ('s, 'v) versions_world) option" where
  "GetAllVersions_loop stub registry name perPage page allVersions w =
     (case roundtrip stub (registry, name, \<lparr>Page = page, PerPage = perPage\<rparr>) w of
        (Inl err, w') \<Rightarrow> Some (Inl (GetVersionsTransport err), w')
      | (Inr resp, w') \<Rightarrow>
          if StatusCode resp = 404 then Some (Inr [], w')
          else if StatusCode resp \<noteq> 200 then
            Some (Inl (GetVersionsFailedStatus (StatusCode resp)), w')
          else
            (case JSON200 resp of
               None \<Rightarrow> Some (Inr allVersions, w')
             | Some vs \<Rightarrow>
                 if length vs = 0 then Some (Inr allVersions, w')
                 else if int (length vs) < perPage then Some (Inr (allVersions @ vs), w')
                 else GetAllVersions_loop stub registry name perPage (page + 1)
                        (allVersions @ vs) w'))"

definition GetAllVersions ::
  "('s, 'v) versions_stub \<Rightarrow> string \<Rightarrow> string \<Rightarrow> ('s, 'v) versions_world \<Rightarrow>
   ((error + 'v list) \<times> ('s, 'v) versions_world) option" where
  "GetAllVersions stub registry name w = GetAllVersions_loop stub registry name 100 1 [] w"

section \<open>Notions used to state the properties\<close>

subsection \<open>Batches and the trace of a bulk lookup\<close>

text \<open>
  The partition of the input the specification speaks of: consecutive batches of
  \<open>MaxBulkLookupSize\<close> elements, the last one possibly shorter.
\<close>

function batches :: "'a list \<Rightarrow> 'a list list" where
  "batches xs =
     (if xs = [] then []
      else take MaxBulkLookupSize xs # batches (drop MaxBulkLookupSize xs))"
  by pat_completeness auto

termination
  by (relation "measure length") (auto simp: MaxBulkLookupSize_def)

declare batches.simps [simp del]

text \<open>
  A call of the bulk endpoint failed when the transport gave an error or the status is not
  200. The embedded error of a response is the message of its \<^verbatim>\<open>JSON400\<close> body, when both
  are there. The packages of an answer are those of its \<^verbatim>\<open>JSON200\<close> body.
\<close>

definition batch_failed :: "string + bulk_response \<Rightarrow> bool" where
  "batch_failed r = (case r of Inl err \<Rightarrow> True | Inr resp \<Rightarrow> StatusCode resp \<noteq> 200)"

definition embedded_error :: "bulk_response \<Rightarrow> string option" where
  "embedded_error resp = (case JSON400 resp of None \<Rightarrow> None | Some body \<Rightarrow> Error body)"

definition packages_of :: "string + bulk_response \<Rightarrow> PackageWithRegistry list" where
  "packages_of r =
     (case r of
        Inl err \<Rightarrow> []
      | Inr resp \<Rightarrow> (case JSON200 resp of None \<Rightarrow> [] | Some pkgs \<Rightarrow> pkgs))"

definition returned_packages :: "'s bulk_world \<Rightarrow> PackageWithRegistry list" where
  "returned_packages w = concat (map (\<lambda>c. packages_of (snd c)) (calls w))"

text \<open>
  The loop of \<open>BulkLookup\<close> once more, by recursion over the list of batches still to send:
  \<open>BulkLookup_loop_process_batches\<close> below shows that the loop over the index computes
  exactly this. \<open>bulk_error\<close> names the error of a failed call.
\<close>

fun process_batches ::
  "('s, string list, bulk_response) stub \<Rightarrow> string list list \<Rightarrow> results \<Rightarrow> 's bulk_world \<Rightarrow>
   (error + results) \<times> 's bulk_world" where
  "process_batches stub [] results w = (Inr results, w)"
| "process_batches stub (batch # bs) results w =
     (case roundtrip stub batch w of
        (Inl err, w') \<Rightarrow> (Inl (BulkLookupTransport err), w')
      | (Inr resp, w') \<Rightarrow>
          if StatusCode resp \<noteq> 200 then
            (case embedded_error resp of
               None \<Rightarrow> (Inl (BulkLookupFailedStatus (StatusCode resp)), w')
             | Some msg \<Rightarrow> (Inl (BulkLookupFailedMessage msg), w'))
          else process_batches stub bs (store_packages results (packages_of (Inr resp))) w')"

definition bulk_error :: "string + bulk_response \<Rightarrow> error" where
  "bulk_error r =
     (case r of
        Inl err \<Rightarrow> BulkLookupTransport err
      | Inr resp \<Rightarrow>
          (case embedded_error resp of
             None \<Rightarrow> BulkLookupFailedStatus (StatusCode resp)
           | Some msg \<Rightarrow> BulkLookupFailedMessage msg))"

subsection \<open>The answers to the pages of a version listing\<close>

text \<open>
  \<open>GetAllVersions\<close> asks for the pages \<open>page\<close>, \<open>page + 1\<close>, ... one after the other.
  \<open>page_state\<close> is the state of the backend after the first \<open>k\<close> of these requests and
  \<open>page_reply\<close> its answer to request number \<open>k\<close> (counted from 0), so that a statement
  about the answers does not presuppose that the loop ends.
\<close>

definition versions_request :: "string \<Rightarrow> string \<Rightarrow> int \<Rightarrow> int \<Rightarrow> versions_request" where
  "versions_request registry name perPage page = (registry, name, \<lparr>Page = page, PerPage = perPage\<rparr>)"

fun page_state ::
  "('s, 'v) versions_stub \<Rightarrow> string \<Rightarrow> string \<Rightarrow> int \<Rightarrow> int \<Rightarrow> 's \<Rightarrow> nat \<Rightarrow> 's" where
  "page_state stub registry name perPage page s 0 = s"
| "page_state stub registry name perPage page s (Suc k) =
     snd (stub (page_state stub registry name perPage page s k)
            (versions_request registry name perPage (page + int k)))"

definition page_reply ::
  "('s, 'v) versions_stub \<Rightarrow> string \<Rightarrow> string \<Rightarrow> int \<Rightarrow> int \<Rightarrow> 's \<Rightarrow> nat \<Rightarrow>
   string + 'v list Response" where
  "page_reply stub registry name perPage page s k =
     fst (stub (page_state stub registry name perPage page s k)
            (versions_request registry name perPage (page + int k)))"

text \<open>
  A full page is a 200 response with a non-empty body of at least \<open>perPage\<close> records: the
  only answer after which the loop asks for another page. \<open>versions_of\<close> are the records
  of an answer, \<open>stop_result\<close> what the loop returns at an answer that is not a full page.
\<close>

definition full_page :: "int \<Rightarrow> string + 'v list Response \<Rightarrow> bool" where
  "full_page perPage r =
     (case r of
        Inl err \<Rightarrow> False
      | Inr resp \<Rightarrow>
          StatusCode resp = 200 \<and>
          (case JSON200 resp of
             None \<Rightarrow> False
           | Some vs \<Rightarrow> vs \<noteq> [] \<and> perPage \<le> int (length vs)))"

definition versions_of :: "string + 'v list Response \<Rightarrow> 'v list" where
  "versions_of r =
     (case r of
        Inl err \<Rightarrow> []
      | Inr resp \<Rightarrow> (case JSON200 resp of None \<Rightarrow> [] | Some vs \<Rightarrow> vs))"

definition stop_result :: "'v list \<Rightarrow> string + 'v list Response \<Rightarrow> error + 'v list" where
  "stop_result allVersions r =
     (case r of
        Inl err \<Rightarrow> Inl (GetVersionsTransport err)
      | Inr resp \<Rightarrow>
          if StatusCode resp = 404 then Inr []
          else if StatusCode resp \<noteq> 200 then Inl (GetVersionsFailedStatus (StatusCode resp))
          else Inr (allVersions @ versions_of r))"

definition page_calls ::
  "('s, 'v) versions_stub \<Rightarrow> string \<Rightarrow> string \<Rightarrow> int \<Rightarrow> int \<Rightarrow> 's \<Rightarrow> nat \<Rightarrow>
   (versions_request \<times> (string + 'v list Response)) list" where
  "page_calls stub registry name perPage page s n =
     map (\<lambda>k. (versions_request registry name perPage (page + int k),
               page_reply stub registry name perPage page s k)) [0..<n]"

definition page_records ::
  "('s, 'v) versions_stub \<Rightarrow> string \<Rightarrow> string \<Rightarrow> int \<Rightarrow> int \<Rightarrow> 's \<Rightarrow> nat \<Rightarrow> 'v list" where
  "page_records stub registry name perPage page s n =
     concat (map (\<lambda>k. versions_of (page_reply stub registry name perPage page s k)) [0..<n])"

subsection \<open>Backends for the examples\<close>

text \<open>
  A parser that knows the one text of the example, the way the external parser reads it,
  and a client constructor that always succeeds.
\<close>

definition example_FromString :: "string \<Rightarrow> string + PackageURL" where
  "example_FromString s =
     (if s = ''pkg:gem/rails@7.0.0'' then
        Inr \<lparr>Type = ''gem'', Namespace = [], Name = ''rails'', Version = ''7.0.0'',
             Qualifiers = [], Subpath = []\<rparr>
      else Inl ''not a valid purl'')"

definition example_constructor :: "string client_constructor" where
  "example_constructor server client editor = Inr server"

text \<open>
  A bulk backend that answers each PURL it knows with the package record, whose \<open>Purl\<close>
  field has no version; one that is unavailable; one that accepts the first call and
  rejects every later one with a message; one that cannot be reached.
\<close>

definition strip_version :: "string \<Rightarrow> string" where
  "strip_version purl = takeWhile (\<lambda>c. c \<noteq> CHR ''@'') purl"

definition catalog :: "(string \<times> PackageWithRegistry) list" where
  "catalog =
     [(''pkg:gem/rails'',
       \<lparr>Purl = ''pkg:gem/rails'', Package_Name = ''rails'', Ecosystem = ''rubygems''\<rparr>),
      (''pkg:npm/lodash'',
       \<lparr>Purl = ''pkg:npm/lodash'', Package_Name = ''lodash'', Ecosystem = ''npm''\<rparr>)]"

definition catalog_stub :: "(unit, string list, bulk_response) stub" where
  "catalog_stub s batch =
     (Inr \<lparr>StatusCode = 200,
           JSON200 = Some (List.map_filter (\<lambda>purl. map_of catalog (strip_version purl)) batch),
           JSON400 = None\<rparr>, s)"

definition unavailable_stub :: "(unit, string list, bulk_response) stub" where
  "unavailable_stub s batch = (Inr \<lparr>StatusCode = 503, JSON200 = None, JSON400 = None\<rparr>, s)"

definition rejecting_stub :: "(nat, string list, bulk_response) stub" where
  "rejecting_stub n batch =
     (if n = 0 then (Inr \<lparr>StatusCode = 200, JSON200 = Some [], JSON400 = None\<rparr>, Suc n)
      else (Inr \<lparr>StatusCode = 400, JSON200 = None,
                 JSON400 = Some \<lparr>Error = Some ''invalid purl''\<rparr>\<rparr>, Suc n))"

definition offline_stub :: "(unit, string list, bulk_response) stub" where
  "offline_stub s batch = (Inl ''connection refused'', s)"

text \<open>Single-entity backends that answer every request with the given status and no body.\<close>

definition status_stub :: "int \<Rightarrow> (unit, 'q, string Response) stub" where
  "status_stub code s q = (Inr \<lparr>StatusCode = code, JSON200 = None\<rparr>, s)"

text \<open>
  Version backends: one with 250 versions, served in pages, each record being the number of
  its page; one whose package disappears after \<open>n\<close> full pages; one that never runs out of
  full pages.
\<close>

definition paged_stub :: "(unit, nat) versions_stub" where
  "paged_stub s q =
     (case q of
        (registry, name, params) \<Rightarrow>
          (Inr \<lparr>StatusCode = 200,
                JSON200 = Some (replicate
                  (min (nat (PerPage params)) (250 - nat ((Page params - 1) * PerPage params)))
                  (nat (Page params)))\<rparr>,
           s))"

definition deleted_after :: "nat \<Rightarrow> (nat, nat) versions_stub" where
  "deleted_after n served q =
     (if served < n then (Inr \<lparr>StatusCode = 200, JSON200 = Some (replicate 100 served)\<rparr>, Suc served)
      else (Inr \<lparr>StatusCode = 404, JSON200 = None\<rparr>, Suc served))"

definition endless_stub :: "(unit, nat) versions_stub" where
  "endless_stub s q = (Inr \<lparr>StatusCode = 200, JSON200 = Some (replicate 100 0)\<rparr>, s)"

section \<open>Properties of the PURL helpers\<close>

lemmas purl_type_defs =
  TypeAlpm_def TypeApk_def TypeBitbucket_def TypeBitnami_def TypeBower_def TypeCargo_def
  TypeCarthage_def TypeChef_def TypeChocolatey_def TypeClojars_def TypeCocoapods_def
  TypeComposer_def TypeConan_def TypeConda_def TypeCpan_def TypeCran_def TypeDocker_def
  TypeElm_def TypeGem_def TypeGeneric_def TypeGithub_def TypeGolang_def TypeHackage_def
  TypeHex_def TypeHuggingface_def TypeMaven_def TypeNPM_def TypeNuget_def TypeOCI_def
  TypePub_def TypePyPi_def TypeRPM_def TypeSwift_def

lemma distinct_purlTypeToRegistry_keys: "distinct (map fst purlTypeToRegistry_entries)"
  unfolding purlTypeToRegistry_entries_def purl_type_defs by simp

lemma map_of_purlTypeToRegistry_entries:
  "(t, r) \<in> set purlTypeToRegistry_entries \<Longrightarrow> purlTypeToRegistry t = Some r"
  unfolding purlTypeToRegistry_def
  by (rule map_of_is_SomeI [OF distinct_purlTypeToRegistry_keys])

lemma unsupported_types_empty:
  "t \<in> {''generic'', ''github'', ''bitbucket'', ''bitnami'', ''huggingface'', ''oci'', ''rpm''}
   \<Longrightarrow> purlTypeToRegistry t = Some []"
  by (rule map_of_purlTypeToRegistry_entries)
     (auto simp: purlTypeToRegistry_entries_def purl_type_defs)

text \<open>
  Claim C6. \<open>PURLToName\<close> returns the bare name when the namespace is empty; otherwise
  namespace and name joined with a colon for the maven type, the bare name for the apk
  type, and namespace and name joined with a slash for every other type.
\<close>

theorem PURLToName_join_rule:
  "(Namespace purl = [] \<longrightarrow> PURLToName purl = Name purl) \<and>
   (Namespace purl \<noteq> [] \<and> Type purl = ''maven'' \<longrightarrow>
      PURLToName purl = Namespace purl @ '':'' @ Name purl) \<and>
   (Namespace purl \<noteq> [] \<and> Type purl = ''apk'' \<longrightarrow> PURLToName purl = Name purl) \<and>
   (Namespace purl \<noteq> [] \<and> Type purl \<noteq> ''maven'' \<and> Type purl \<noteq> ''apk'' \<longrightarrow>
      PURLToName purl = Namespace purl @ ''/'' @ Name purl)"
  by (simp add: PURLToName_def TypeMaven_def TypeApk_def)

theorem PURLToName_join_rule_witness:
  "PURLToName \<lparr>Type = ''npm'', Namespace = [], Name = ''lodash'', Version = [],
      Qualifiers = [], Subpath = []\<rparr> = ''lodash'' \<and>
   PURLToName \<lparr>Type = ''maven'', Namespace = ''org.apache.commons'', Name = ''commons-lang3'',
      Version = [], Qualifiers = [], Subpath = []\<rparr> = ''org.apache.commons:commons-lang3'' \<and>
   PURLToName \<lparr>Type = ''apk'', Namespace = ''alpine'', Name = ''curl'', Version = [],
      Qualifiers = [], Subpath = []\<rparr> = ''curl'' \<and>
   PURLToName \<lparr>Type = ''npm'', Namespace = ''babel'', Name = ''core'', Version = [],
      Qualifiers = [], Subpath = []\<rparr> = ''babel/core''"
  using
    PURLToName_join_rule [of "\<lparr>Type = ''npm'', Namespace = [], Name = ''lodash'', Version = [],
      Qualifiers = [], Subpath = []\<rparr>"]
    PURLToName_join_rule [of "\<lparr>Type = ''maven'', Namespace = ''org.apache.commons'',
      Name = ''commons-lang3'', Version = [], Qualifiers = [], Subpath = []\<rparr>"]
    PURLToName_join_rule [of "\<lparr>Type = ''apk'', Namespace = ''alpine'', Name = ''curl'',
      Version = [], Qualifiers = [], Subpath = []\<rparr>"]
    PURLToName_join_rule [of "\<lparr>Type = ''npm'', Namespace = ''babel'', Name = ''core'',
      Version = [], Qualifiers = [], Subpath = []\<rparr>"]
  by simp

text \<open>
  Claim C7. \<open>PURLToRegistry\<close> depends on the type of the PURL alone: two PURLs of the same
  type get the same registry. It returns the registry of the table for a type in the
  table, and the empty string for every type outside the table as well as for the types
  generic, github, bitbucket, bitnami, huggingface, oci and rpm.
\<close>

theorem PURLToRegistry_table_lookup:
  "(Type p = Type q \<longrightarrow> PURLToRegistry p = PURLToRegistry q) \<and>
   (\<forall>r. (Type p, r) \<in> set purlTypeToRegistry_entries \<longrightarrow> PURLToRegistry p = r) \<and>
   (Type p \<notin> fst ` set purlTypeToRegistry_entries \<longrightarrow> PURLToRegistry p = []) \<and>
   (Type p \<in> {''generic'', ''github'', ''bitbucket'', ''bitnami'', ''huggingface'', ''oci'',
       ''rpm''} \<longrightarrow> PURLToRegistry p = [])"
proof (intro conjI impI allI)
  assume "Type p = Type q"
  then show "PURLToRegistry p = PURLToRegistry q"
    by (simp add: PURLToRegistry_def)
next
  fix r
  assume "(Type p, r) \<in> set purlTypeToRegistry_entries"
  then show "PURLToRegistry p = r"
    by (simp add: PURLToRegistry_def map_of_purlTypeToRegistry_entries)
next
  assume "Type p \<notin> fst ` set purlTypeToRegistry_entries"
  then have "purlTypeToRegistry (Type p) = None"
    by (simp add: purlTypeToRegistry_def map_of_eq_None_iff)
  then show "PURLToRegistry p = []"
    by (simp add: PURLToRegistry_def)
next
  assume "Type p \<in> {''generic'', ''github'', ''bitbucket'', ''bitnami'', ''huggingface'',
    ''oci'', ''rpm''}"
  then show "PURLToRegistry p = []"
    by (simp only: PURLToRegistry_def unsupported_types_empty option.case)
qed

theorem PURLToRegistry_table_lookup_witness:
  "PURLToRegistry \<lparr>Type = ''gem'', Namespace = [], Name = ''rails'', Version = ''7.0.0'',
      Qualifiers = [], Subpath = []\<rparr> = ''rubygems.org'' \<and>
   PURLToRegistry \<lparr>Type = ''gem'', Namespace = ''ns'', Name = ''rake'', Version = [],
      Qualifiers = [], Subpath = []\<rparr> = ''rubygems.org'' \<and>
   PURLToRegistry \<lparr>Type = ''nonsense'', Namespace = [], Name = ''x'', Version = [],
      Qualifiers = [], Subpath = []\<rparr> = [] \<and>
   PURLToRegistry \<lparr>Type = ''oci'', Namespace = [], Name = ''x'', Version = [],
      Qualifiers = [], Subpath = []\<rparr> = []"
proof -
  let ?rails = "\<lparr>Type = ''gem'', Namespace = [], Name = ''rails'', Version = ''7.0.0'',
      Qualifiers = [], Subpath = []\<rparr>"
  let ?rake = "\<lparr>Type = ''gem'', Namespace = ''ns'', Name = ''rake'', Version = [],
      Qualifiers = [], Subpath = []\<rparr>"
  let ?nonsense = "\<lparr>Type = ''nonsense'', Namespace = [], Name = ''x'', Version = [],
      Qualifiers = [], Subpath = []\<rparr>"
  let ?oci = "\<lparr>Type = ''oci'', Namespace = [], Name = ''x'', Version = [],
      Qualifiers = [], Subpath = []\<rparr>"
  have same: "Type ?rails = Type ?rake"
    by simp
  have mapped: "(Type ?rails, ''rubygems.org'') \<in> set purlTypeToRegistry_entries"
    by (simp add: purlTypeToRegistry_entries_def purl_type_defs)
  have unmapped: "Type ?nonsense \<notin> fst ` set purlTypeToRegistry_entries"
    by (simp add: purlTypeToRegistry_entries_def purl_type_defs)
  have unsupported: "Type ?oci \<in> {''generic'', ''github'', ''bitbucket'', ''bitnami'',
      ''huggingface'', ''oci'', ''rpm''}"
    by simp
  from PURLToRegistry_table_lookup [of ?rails ?rake] same mapped
  have "PURLToRegistry ?rails = ''rubygems.org''"
    and "PURLToRegistry ?rake = ''rubygems.org''"
    by metis+
  moreover from PURLToRegistry_table_lookup [of ?nonsense ?nonsense] unmapped
  have "PURLToRegistry ?nonsense = []"
    by metis
  moreover from PURLToRegistry_table_lookup [of ?oci ?oci] unsupported
  have "PURLToRegistry ?oci = []"
    by metis
  ultimately show ?thesis
    by (intro conjI)
qed

text \<open>
  Claim C8. For a text \<open>s\<close> that does not start with \<^verbatim>\<open>pkg:\<close>, \<open>ParsePURL s\<close> is
  \<open>ParsePURL\<close> of \<^verbatim>\<open>pkg:\<close> followed by \<open>s\<close>, whatever the external parser is. In particular
  the texts \<^verbatim>\<open>gem/rails@7.0.0\<close> and \<^verbatim>\<open>pkg:gem/rails@7.0.0\<close> give the same result, which
  is what the external parser makes of \<^verbatim>\<open>pkg:gem/rails@7.0.0\<close>.
\<close>

theorem ParsePURL_scheme_prefix:
  "(\<not> HasPrefix s ''pkg:'' \<longrightarrow>
      ParsePURL FromString s = ParsePURL FromString (''pkg:'' @ s)) \<and>
   ParsePURL FromString ''gem/rails@7.0.0'' = ParsePURL FromString ''pkg:gem/rails@7.0.0'' \<and>
   ParsePURL FromString ''pkg:gem/rails@7.0.0'' = FromString ''pkg:gem/rails@7.0.0''"
  by (simp add: ParsePURL_def HasPrefix_def)

theorem ParsePURL_scheme_prefix_witness:
  "\<not> HasPrefix ''gem/rails@7.0.0'' ''pkg:'' \<and>
   ParsePURL example_FromString ''gem/rails@7.0.0'' =
     Inr \<lparr>Type = ''gem'', Namespace = [], Name = ''rails'', Version = ''7.0.0'',
          Qualifiers = [], Subpath = []\<rparr> \<and>
   ParsePURL example_FromString ''pkg:gem/rails@7.0.0'' =
     Inr \<lparr>Type = ''gem'', Namespace = [], Name = ''rails'', Version = ''7.0.0'',
          Qualifiers = [], Subpath = []\<rparr>"
  using ParsePURL_scheme_prefix [of "''gem/rails@7.0.0''" example_FromString]
  by (simp add: HasPrefix_def example_FromString_def)

section \<open>Properties of the client\<close>

text \<open>
  Claim C9. With an empty user agent \<open>NewClient\<close> fails with the error that the user agent
  is required, for every list of options and whatever the constructors of the generated
  clients do; \<open>NewClient\<close> makes no call to a backend at all. With a non-empty user agent
  it does not fail with that error.
\<close>

theorem NewClient_requires_userAgent:
  "NewClient newPackagesClient newReposClient [] opts = Inl UserAgentRequired \<and>
   (ua \<noteq> [] \<longrightarrow>
      NewClient newPackagesClient newReposClient ua opts \<noteq> Inl UserAgentRequired)"
  by (simp add: NewClient_def Let_def split: sum.splits)

theorem NewClient_requires_userAgent_witness:
  "''my-app/1.0'' \<noteq> [] \<and>
   NewClient example_constructor example_constructor [] [WithFrom ''you@example.com''] =
     Inl UserAgentRequired \<and>
   NewClient example_constructor example_constructor ''my-app/1.0''
       [WithFrom ''you@example.com''] =
     Inr \<lparr>packagesClient = DefaultPackagesServer, reposClient = DefaultReposServer,
          Client_userAgent = ''my-app/1.0''\<rparr>"
  using NewClient_requires_userAgent [of example_constructor example_constructor
      "[WithFrom ''you@example.com'']" "''my-app/1.0''"]
  by (simp add: NewClient_def example_constructor_def WithFrom_def)

text \<open>
  Claim C5. In \<open>LookupByRegistryAndName\<close>, \<open>GetVersion\<close> and \<open>GetRepository\<close>, a response
  with status 404 gives the absent result and no error, and a response with any other
  status outside 200..299 gives the error that carries the status, and no record.
\<close>

theorem single_lookup_status:
  fixes package_stub :: "('s1, string \<times> string, 'p Response) stub"
    and version_stub :: "('s2, string \<times> string \<times> string, 'v Response) stub"
    and repository_stub :: "('s3, string, 'r Response) stub"
  shows
  "(package_stub (backend w1) (registry, name) = (Inr resp1, t1) \<longrightarrow>
      (StatusCode resp1 = 404 \<longrightarrow>
         fst (LookupByRegistryAndName package_stub registry name w1) = Inr None) \<and>
      (StatusCode resp1 \<noteq> 404 \<and> \<not> (200 \<le> StatusCode resp1 \<and> StatusCode resp1 < 300) \<longrightarrow>
         fst (LookupByRegistryAndName package_stub registry name w1) =
           Inl (LookupFailedStatus (StatusCode resp1)))) \<and>
   (version_stub (backend w2) (registry, name, version) = (Inr resp2, t2) \<longrightarrow>
      (StatusCode resp2 = 404 \<longrightarrow>
         fst (GetVersion version_stub registry name version w2) = Inr None) \<and>
      (StatusCode resp2 \<noteq> 404 \<and> \<not> (200 \<le> StatusCode resp2 \<and> StatusCode resp2 < 300) \<longrightarrow>
         fst (GetVersion version_stub registry name version w2) =
           Inl (GetVersionFailedStatus (StatusCode resp2)))) \<and>
   (repository_stub (backend w3) url = (Inr resp3, t3) \<longrightarrow>
      (StatusCode resp3 = 404 \<longrightarrow>
         fst (GetRepository repository_stub url w3) = Inr None) \<and>
      (StatusCode resp3 \<noteq> 404 \<and> \<not> (200 \<le> StatusCode resp3 \<and> StatusCode resp3 < 300) \<longrightarrow>
         fst (GetRepository repository_stub url w3) =
           Inl (LookupRepositoryFailedStatus (StatusCode resp3))))"
  by (auto simp: LookupByRegistryAndName_def GetVersion_def GetRepository_def roundtrip_def)

theorem single_lookup_status_witness:
  "fst (LookupByRegistryAndName (status_stub 404) ''rubygems.org'' ''nope'' (init ())) =
     Inr None \<and>
   fst (GetVersion (status_stub 404) ''rubygems.org'' ''rake'' ''0.0.0'' (init ())) =
     Inr None \<and>
   fst (GetRepository (status_stub 404) ''https://github.com/nope/nope'' (init ())) =
     Inr None \<and>
   fst (LookupByRegistryAndName (status_stub 500) ''rubygems.org'' ''rake'' (init ())) =
     Inl (LookupFailedStatus 500) \<and>
   fst (GetVersion (status_stub 500) ''rubygems.org'' ''rake'' ''13.0.0'' (init ())) =
     Inl (GetVersionFailedStatus 500) \<and>
   fst (GetRepository (status_stub 500) ''https://github.com/ruby/rake'' (init ())) =
     Inl (LookupRepositoryFailedStatus 500)"
  using
    single_lookup_status [where package_stub = "status_stub 404"
      and version_stub = "status_stub 404" and repository_stub = "status_stub 404"
      and ?w1.0 = "init ()" and ?w2.0 = "init ()" and ?w3.0 = "init ()"
      and registry = "''rubygems.org''" and name = "''nope''" and version = "''0.0.0''"
      and url = "''https://github.com/nope/nope''"
      and ?resp1.0 = "\<lparr>StatusCode = 404, JSON200 = None\<rparr>"
      and ?resp2.0 = "\<lparr>StatusCode = 404, JSON200 = None\<rparr>"
      and ?resp3.0 = "\<lparr>StatusCode = 404, JSON200 = None\<rparr>"
      and ?t1.0 = "()" and ?t2.0 = "()" and ?t3.0 = "()"]
    single_lookup_status [where package_stub = "status_stub 500"
      and version_stub = "status_stub 500" and repository_stub = "status_stub 500"
      and ?w1.0 = "init ()" and ?w2.0 = "init ()" and ?w3.0 = "init ()"
      and registry = "''rubygems.org''" and name = "''rake''" and version = "''13.0.0''"
      and url = "''https://github.com/ruby/rake''"
      and ?resp1.0 = "\<lparr>StatusCode = 500, JSON200 = None\<rparr>"
      and ?resp2.0 = "\<lparr>StatusCode = 500, JSON200 = None\<rparr>"
      and ?resp3.0 = "\<lparr>StatusCode = 500, JSON200 = None\<rparr>"
      and ?t1.0 = "()" and ?t2.0 = "()" and ?t3.0 = "()"]
  by (simp add: status_stub_def init_def GetVersion_def LookupByRegistryAndName_def
        GetRepository_def roundtrip_def)

subsection \<open>BulkLookup\<close>

lemma batches_Nil [simp]: "batches [] = []"
  by (simp add: batches.simps)

lemma batches_nonempty: "xs \<noteq> [] \<Longrightarrow> batches xs = take MaxBulkLookupSize xs # batches (drop MaxBulkLookupSize xs)"
  by (subst batches.simps) simp

lemma concat_batches: "concat (batches xs) = xs"
  by (induction xs rule: batches.induct) (subst batches.simps, simp)

lemma batches_sizes: "b \<in> set (batches xs) \<Longrightarrow> b \<noteq> [] \<and> length b \<le> MaxBulkLookupSize"
proof (induction xs rule: batches.induct)
  case (1 xs)
  show ?case
  proof (cases "xs = []")
    case True
    with "1.prems" show ?thesis by simp
  next
    case False
    with "1.prems" have "b = take MaxBulkLookupSize xs \<or> b \<in> set (batches (drop MaxBulkLookupSize xs))"
      by (simp add: batches_nonempty [OF False])
    then show ?thesis
    proof
      assume "b = take MaxBulkLookupSize xs"
      with False show ?thesis by (simp add: MaxBulkLookupSize_def)
    next
      assume "b \<in> set (batches (drop MaxBulkLookupSize xs))"
      with False "1.IH" show ?thesis by simp
    qed
  qed
qed

lemma ceil_step: "0 < (n::nat) \<Longrightarrow> Suc ((n - 100 + 99) div 100) = (n + 99) div 100"
proof (cases "100 \<le> n")
  case True
  then have "n + 99 = (n - 100 + 99) + 100" by simp
  then have "(n + 99) div 100 = (n - 100 + 99) div 100 + 1"
    by (simp only: div_add_self2)
  then show ?thesis by simp
next
  case False
  assume "0 < n"
  with False have "(n + 99) div 100 = 1"
    by (simp add: div_nat_eqI)
  with False show ?thesis by simp
qed

lemma length_batches: "length (batches xs) = (length xs + 99) div 100"
proof (induction xs rule: batches.induct)
  case (1 xs)
  show ?case
  proof (cases "xs = []")
    case True
    then show ?thesis by simp
  next
    case False
    then have pos: "length xs > 0" by simp
    have "length (batches xs) = Suc (length (batches (drop MaxBulkLookupSize xs)))"
      by (simp only: batches_nonempty [OF False] list.size length_Cons)
    also have "\<dots> = Suc ((length xs - 100 + 99) div 100)"
      using "1.IH" [OF False] by (simp add: MaxBulkLookupSize_def)
    also have "\<dots> = (length xs + 99) div 100"
      using pos by (rule ceil_step)
    finally show ?thesis .
  qed
qed

lemma nth_batches:
  "k < length (batches xs) \<Longrightarrow>
   batches xs ! k = take MaxBulkLookupSize (drop (k * MaxBulkLookupSize) xs)"
proof (induction xs arbitrary: k rule: batches.induct)
  case (1 xs)
  show ?case
  proof (cases "xs = []")
    case True
    with "1.prems" show ?thesis by simp
  next
    case False
    show ?thesis
    proof (cases k)
      case 0
      then show ?thesis by (simp add: batches_nonempty [OF False])
    next
      case (Suc j)
      with "1.prems" have "j < length (batches (drop MaxBulkLookupSize xs))"
        by (simp add: batches_nonempty [OF False])
      with "1.IH" [OF False] have
        "batches (drop MaxBulkLookupSize xs) ! j =
           take MaxBulkLookupSize (drop (j * MaxBulkLookupSize) (drop MaxBulkLookupSize xs))"
        by simp
      with Suc show ?thesis
        by (simp add: batches_nonempty [OF False] add.commute)
    qed
  qed
qed

lemma batches_250:
  assumes "length xs = 250"
  shows "map length (batches xs) = [100, 100, 50]"
proof -
  have a: "xs \<noteq> []" using assms by auto
  have b: "drop MaxBulkLookupSize xs \<noteq> []"
    using assms by (simp add: MaxBulkLookupSize_def)
  have c: "drop MaxBulkLookupSize (drop MaxBulkLookupSize xs) \<noteq> []"
    using assms by (simp add: MaxBulkLookupSize_def)
  have d: "drop MaxBulkLookupSize (drop MaxBulkLookupSize (drop MaxBulkLookupSize xs)) = []"
    using assms by (simp add: MaxBulkLookupSize_def)
  show ?thesis
    unfolding batches_nonempty [OF a] batches_nonempty [OF b] batches_nonempty [OF c] d
    using assms by (simp add: MaxBulkLookupSize_def)
qed

text \<open>The loop over the index sends the batches of the rest of the input.\<close>

lemma BulkLookup_loop_process_batches:
  "BulkLookup_loop stub purls i results w =
     process_batches stub (batches (drop i purls)) results w"
proof (induction stub purls i results w rule: BulkLookup_loop.induct)
  case (1 stub purls i results w)
  show ?case
  proof (cases "i < length purls")
    case False
    then show ?thesis by (subst BulkLookup_loop.simps) simp
  next
    case True
    define batch where "batch = take MaxBulkLookupSize (drop i purls)"
    have slice: "take ((if i + MaxBulkLookupSize > length purls then length purls
                   else i + MaxBulkLookupSize) - i) (drop i purls) = batch"
      using True by (auto simp: batch_def)
    have bs: "batches (drop i purls) = batch # batches (drop (i + MaxBulkLookupSize) purls)"
      using True by (simp add: batches_nonempty batch_def add.commute)
    obtain r w' where rt: "roundtrip stub batch w = (r, w')"
      by (cases "roundtrip stub batch w")
    show ?thesis
    proof (cases r)
      case (Inl err)
      with rt True slice bs show ?thesis
        by (subst BulkLookup_loop.simps) (simp add: Let_def)
    next
      case (Inr resp)
      show ?thesis
      proof (cases "StatusCode resp = 200")
        case False
        with rt True slice bs Inr show ?thesis
          by (subst BulkLookup_loop.simps)
             (simp add: Let_def embedded_error_def split: option.splits)
      next
        case ok: True
        have "BulkLookup_loop stub purls (i + MaxBulkLookupSize)
                (case JSON200 resp of None \<Rightarrow> results | Some pkgs \<Rightarrow> store_packages results pkgs) w' =
              process_batches stub (batches (drop (i + MaxBulkLookupSize) purls))
                (case JSON200 resp of None \<Rightarrow> results | Some pkgs \<Rightarrow> store_packages results pkgs) w'"
          using "1.IH" [OF True refl refl, of "Inr resp" w' resp] rt Inr ok slice
          by simp
        moreover have "(case JSON200 resp of None \<Rightarrow> results | Some pkgs \<Rightarrow> store_packages results pkgs)
            = store_packages results (packages_of (Inr resp))"
          by (simp add: packages_of_def store_packages_def split: option.splits)
        ultimately show ?thesis
          using rt True slice bs Inr ok
          by (subst BulkLookup_loop.simps) (simp add: Let_def)
      qed
    qed
  qed
qed

lemma BulkLookup_process_batches:
  "BulkLookup stub purls w = process_batches stub (batches purls) Map.empty w"
  by (simp add: BulkLookup_def BulkLookup_loop_process_batches)

lemma roundtrip_calls:
  "roundtrip stub q w = (r, w') \<Longrightarrow> calls w' = calls w @ [(q, r)]"
  by (auto simp: roundtrip_def split: prod.splits)

lemma store_packages_append:
  "store_packages (store_packages m ps) qs = store_packages m (ps @ qs)"
  by (simp add: store_packages_def)

lemma process_batches_failure_step:
  assumes "roundtrip stub batch w = (r, w1)" and "batch_failed r"
  shows "process_batches stub (batch # bs) results w = (Inl (bulk_error r), w1)"
  using assms
  by (cases r) (auto simp: batch_failed_def bulk_error_def split: option.splits)

lemma process_batches_success_step:
  assumes "roundtrip stub batch w = (r, w1)" and "\<not> batch_failed r"
  shows "process_batches stub (batch # bs) results w =
           process_batches stub bs (store_packages results (packages_of r)) w1"
  using assms
  by (cases r) (auto simp: batch_failed_def)

lemma process_batches_trace:
  assumes "process_batches stub bs results w = (res, w')"
  shows "\<exists>new. calls w' = calls w @ new \<and>
           map fst new = take (length new) bs \<and>
           (\<forall>c \<in> set (butlast new). \<not> batch_failed (snd c)) \<and>
           (case res of
              Inr m \<Rightarrow>
                length new = length bs \<and> (\<forall>c \<in> set new. \<not> batch_failed (snd c)) \<and>
                m = store_packages results (concat (map (\<lambda>c. packages_of (snd c)) new))
            | Inl e \<Rightarrow>
                new \<noteq> [] \<and> batch_failed (snd (last new)) \<and> e = bulk_error (snd (last new)))"
  using assms
proof (induction bs arbitrary: results w)
  case Nil
  then have "res = Inr results" and "w' = w" by auto
  then show ?case
    by (intro exI [of _ "[]"]) (simp add: store_packages_def)
next
  case (Cons batch bs)
  obtain r w1 where rt: "roundtrip stub batch w = (r, w1)"
    by (cases "roundtrip stub batch w")
  have c1: "calls w1 = calls w @ [(batch, r)]"
    using rt by (rule roundtrip_calls)
  show ?case
  proof (cases "batch_failed r")
    case True
    from Cons.prems have "res = Inl (bulk_error r)" and "w' = w1"
      unfolding process_batches_failure_step [OF rt True] by simp_all
    with c1 True show ?thesis
      by (intro exI [of _ "[(batch, r)]"]) simp
  next
    case False
    from Cons.prems have
      "process_batches stub bs (store_packages results (packages_of r)) w1 = (res, w')"
      unfolding process_batches_success_step [OF rt False] .
    from Cons.IH [OF this] obtain new where
      n1: "calls w' = calls w1 @ new" and
      n2: "map fst new = take (length new) bs" and
      n3: "\<forall>c \<in> set (butlast new). \<not> batch_failed (snd c)" and
      n4: "case res of
              Inr m \<Rightarrow>
                length new = length bs \<and> (\<forall>c \<in> set new. \<not> batch_failed (snd c)) \<and>
                m = store_packages (store_packages results (packages_of r))
                      (concat (map (\<lambda>c. packages_of (snd c)) new))
            | Inl e \<Rightarrow>
                new \<noteq> [] \<and> batch_failed (snd (last new)) \<and> e = bulk_error (snd (last new))"
      by blast
    let ?new = "(batch, r) # new"
    have "calls w' = calls w @ ?new"
      using n1 c1 by simp
    moreover have "map fst ?new = take (length ?new) (batch # bs)"
      using n2 by simp
    moreover have "\<forall>c \<in> set (butlast ?new). \<not> batch_failed (snd c)"
      using n3 False by (cases new) auto
    moreover have "case res of
              Inr m \<Rightarrow>
                length ?new = length (batch # bs) \<and> (\<forall>c \<in> set ?new. \<not> batch_failed (snd c)) \<and>
                m = store_packages results (concat (map (\<lambda>c. packages_of (snd c)) ?new))
            | Inl e \<Rightarrow>
                ?new \<noteq> [] \<and> batch_failed (snd (last ?new)) \<and> e = bulk_error (snd (last ?new))"
      using n4 False by (cases res) (auto simp: store_packages_append)
    ultimately show ?thesis
      by (intro exI [of _ ?new]) blast
  qed
qed

lemma store_packages_lookup:
  "store_packages m ps k =
     (case filter (\<lambda>pkg. Purl pkg = k) ps of [] \<Rightarrow> m k | p # qs \<Rightarrow> Some (last (p # qs)))"
proof (induction ps arbitrary: m rule: rev_induct)
  case Nil
  then show ?case by (simp add: store_packages_def)
next
  case (snoc x xs)
  have "store_packages m (xs @ [x]) = (store_packages m xs)(Purl x \<mapsto> x)"
    by (simp add: store_packages_def)
  then show ?case
    using snoc.IH [of m] by (auto split: list.splits)
qed

lemma BulkLookup_trace:
  assumes "BulkLookup stub purls (init s) = (res, w)"
  shows "map fst (calls w) = take (length (calls w)) (batches purls)"
    and "\<forall>c \<in> set (butlast (calls w)). \<not> batch_failed (snd c)"
    and "res = Inr m \<Longrightarrow> length (calls w) = length (batches purls)"
    and "res = Inr m \<Longrightarrow> \<forall>c \<in> set (calls w). \<not> batch_failed (snd c)"
    and "res = Inr m \<Longrightarrow> m = store_packages Map.empty (returned_packages w)"
    and "res = Inl e \<Longrightarrow> calls w \<noteq> [] \<and> batch_failed (snd (last (calls w))) \<and>
           e = bulk_error (snd (last (calls w)))"
proof -
  from assms have "process_batches stub (batches purls) Map.empty (init s) = (res, w)"
    by (simp add: BulkLookup_process_batches)
  from process_batches_trace [OF this] obtain new where
    n1: "calls w = calls (init s) @ new" and
    n2: "map fst new = take (length new) (batches purls)" and
    n3: "\<forall>c \<in> set (butlast new). \<not> batch_failed (snd c)" and
    n4: "case res of
           Inr m \<Rightarrow>
             length new = length (batches purls) \<and> (\<forall>c \<in> set new. \<not> batch_failed (snd c)) \<and>
             m = store_packages Map.empty (concat (map (\<lambda>c. packages_of (snd c)) new))
         | Inl e \<Rightarrow>
             new \<noteq> [] \<and> batch_failed (snd (last new)) \<and> e = bulk_error (snd (last new))"
    by blast
  have eq: "calls w = new"
    using n1 by (simp add: init_def)
  show "map fst (calls w) = take (length (calls w)) (batches purls)"
    using n2 eq by simp
  show "\<forall>c \<in> set (butlast (calls w)). \<not> batch_failed (snd c)"
    using n3 eq by simp
  show "res = Inr m \<Longrightarrow> length (calls w) = length (batches purls)"
    using n4 eq by simp
  show "res = Inr m \<Longrightarrow> \<forall>c \<in> set (calls w). \<not> batch_failed (snd c)"
    using n4 eq by simp
  show "res = Inr m \<Longrightarrow> m = store_packages Map.empty (returned_packages w)"
    using n4 eq by (simp add: returned_packages_def)
  show "res = Inl e \<Longrightarrow> calls w \<noteq> [] \<and> batch_failed (snd (last (calls w))) \<and>
           e = bulk_error (snd (last (calls w)))"
    using n4 eq by simp
qed

text \<open>Runs of the example backends.\<close>

lemmas bulk_eval =
  BulkLookup_process_batches batches.simps roundtrip_def init_def MaxBulkLookupSize_def
  packages_of_def store_packages_def embedded_error_def batch_failed_def

lemma catalog_250_run:
  "map (length \<circ> fst)
     (calls (snd (BulkLookup catalog_stub (replicate 250 ''pkg:npm/lodash'') (init ())))) =
     [100, 100, 50] \<and>
   \<not> isl (fst (BulkLookup catalog_stub (replicate 250 ''pkg:npm/lodash'') (init ())))"
  by (simp add: bulk_eval catalog_stub_def)

lemma rejecting_run:
  "BulkLookup rejecting_stub (replicate 101 ''pkg:npm/lodash'') (init 0) =
     (Inl (BulkLookupFailedMessage ''invalid purl''),
      \<lparr>backend = 2,
       calls = [(replicate 100 ''pkg:npm/lodash'',
                 Inr \<lparr>StatusCode = 200, JSON200 = Some [], JSON400 = None\<rparr>),
                ([''pkg:npm/lodash''],
                 Inr \<lparr>StatusCode = 400, JSON200 = None,
                      JSON400 = Some \<lparr>Error = Some ''invalid purl''\<rparr>\<rparr>)]\<rparr>)"
  by (simp add: bulk_eval rejecting_stub_def)

lemma catalog_run:
  "BulkLookup catalog_stub [''pkg:gem/rails'', ''pkg:npm/lodash@4.17.21''] (init ()) =
     (Inr [''pkg:gem/rails'' \<mapsto>
             \<lparr>Purl = ''pkg:gem/rails'', Package_Name = ''rails'', Ecosystem = ''rubygems''\<rparr>,
           ''pkg:npm/lodash'' \<mapsto>
             \<lparr>Purl = ''pkg:npm/lodash'', Package_Name = ''lodash'', Ecosystem = ''npm''\<rparr>],
      \<lparr>backend = (),
       calls = [([''pkg:gem/rails'', ''pkg:npm/lodash@4.17.21''],
                 Inr \<lparr>StatusCode = 200,
                      JSON200 = Some
                        [\<lparr>Purl = ''pkg:gem/rails'', Package_Name = ''rails'',
                            Ecosystem = ''rubygems''\<rparr>,
                         \<lparr>Purl = ''pkg:npm/lodash'', Package_Name = ''lodash'',
                            Ecosystem = ''npm''\<rparr>],
                      JSON400 = None\<rparr>)]\<rparr>)"
  by (simp add: bulk_eval catalog_stub_def catalog_def strip_version_def)

text \<open>
  Claim C2, as the code has it. The batches are a partition of the input into consecutive
  runs of at most 100 elements, batch \<open>k\<close> being the 100 elements from index \<open>100 * k\<close>.
  \<open>BulkLookup\<close> sends one call per batch, in the order of the batches and each batch once,
  and stops at the first call that fails: the calls are always the first batches, no call
  but the last one failed, a call that returns a mapping has sent every batch (for 250
  inputs: 3 calls, of 100, 100 and 50 elements) and a call that returns an error has ended
  with a failed call. For the empty list it returns the empty mapping without any call.
\<close>

theorem BulkLookup_batching:
  assumes "BulkLookup stub purls (init s) = (res, w)"
  shows "concat (batches purls) = purls \<and>
         (\<forall>b \<in> set (batches purls). b \<noteq> [] \<and> length b \<le> 100) \<and>
         (\<forall>k < length (batches purls). batches purls ! k = take 100 (drop (k * 100) purls)) \<and>
         map fst (calls w) = take (length (calls w)) (batches purls) \<and>
         (\<forall>c \<in> set (butlast (calls w)). \<not> batch_failed (snd c)) \<and>
         (\<forall>m. res = Inr m \<longrightarrow> map fst (calls w) = batches purls) \<and>
         (\<forall>e. res = Inl e \<longrightarrow> calls w \<noteq> [] \<and> batch_failed (snd (last (calls w)))) \<and>
         (\<forall>m. res = Inr m \<and> length purls = 250 \<longrightarrow>
            map (length \<circ> fst) (calls w) = [100, 100, 50]) \<and>
         (purls = [] \<longrightarrow> res = Inr Map.empty \<and> calls w = [])"
proof (intro conjI)
  show "concat (batches purls) = purls"
    by (rule concat_batches)
  show "\<forall>b \<in> set (batches purls). b \<noteq> [] \<and> length b \<le> 100"
    using batches_sizes [of _ purls] by (simp add: MaxBulkLookupSize_def)
  show "\<forall>k < length (batches purls). batches purls ! k = take 100 (drop (k * 100) purls)"
    using nth_batches [of _ purls] by (simp add: MaxBulkLookupSize_def)
  show "map fst (calls w) = take (length (calls w)) (batches purls)"
    using BulkLookup_trace(1) [OF assms] .
  show "\<forall>c \<in> set (butlast (calls w)). \<not> batch_failed (snd c)"
    using BulkLookup_trace(2) [OF assms] .
  show full: "\<forall>m. res = Inr m \<longrightarrow> map fst (calls w) = batches purls"
    using BulkLookup_trace(1) [OF assms] BulkLookup_trace(3) [OF assms] by simp
  show "\<forall>e. res = Inl e \<longrightarrow> calls w \<noteq> [] \<and> batch_failed (snd (last (calls w)))"
    using BulkLookup_trace(6) [OF assms] by simp
  show "\<forall>m. res = Inr m \<and> length purls = 250 \<longrightarrow>
            map (length \<circ> fst) (calls w) = [100, 100, 50]"
  proof (intro allI impI)
    fix m
    assume h: "res = Inr m \<and> length purls = 250"
    then have "map fst (calls w) = batches purls" using full by simp
    then have "map length (map fst (calls w)) = [100, 100, 50]"
      using h batches_250 [of purls] by simp
    then show "map (length \<circ> fst) (calls w) = [100, 100, 50]" by simp
  qed
  show "purls = [] \<longrightarrow> res = Inr Map.empty \<and> calls w = []"
    using assms by (auto simp: BulkLookup_def init_def)
qed

theorem BulkLookup_batching_witness:
  "\<not> isl (fst (BulkLookup catalog_stub (replicate 250 ''pkg:npm/lodash'') (init ()))) \<and>
   map (length \<circ> fst)
     (calls (snd (BulkLookup catalog_stub (replicate 250 ''pkg:npm/lodash'') (init ())))) =
     [100, 100, 50] \<and>
   map fst (calls (snd (BulkLookup catalog_stub (replicate 250 ''pkg:npm/lodash'') (init ())))) =
     batches (replicate 250 ''pkg:npm/lodash'') \<and>
   fst (BulkLookup catalog_stub [] (init ())) = Inr Map.empty \<and>
   calls (snd (BulkLookup catalog_stub [] (init ()))) = [] \<and>
   fst (BulkLookup unavailable_stub [''pkg:npm/lodash''] (init ())) =
     Inl (BulkLookupFailedStatus 503) \<and>
   batch_failed
     (snd (last (calls (snd (BulkLookup unavailable_stub [''pkg:npm/lodash''] (init ()))))))"
proof -
  let ?run = "BulkLookup catalog_stub (replicate 250 ''pkg:npm/lodash'') (init ())"
  let ?none = "BulkLookup catalog_stub [] (init ())"
  let ?down = "BulkLookup unavailable_stub [''pkg:npm/lodash''] (init ())"
  have ok: "\<not> isl (fst ?run)"
    using catalog_250_run by simp
  then obtain m where m: "fst ?run = Inr m"
    by (cases "fst ?run") auto
  have run: "?run = (fst ?run, snd ?run)"
    by simp
  have len: "length (replicate 250 ''pkg:npm/lodash'') = 250"
    by simp
  note rest = BulkLookup_batching [OF run, THEN conjunct2, THEN conjunct2, THEN conjunct2,
    THEN conjunct2, THEN conjunct2]
  note every = rest [THEN conjunct1]
  note sizes = rest [THEN conjunct2, THEN conjunct2, THEN conjunct1]
  have none: "?none = (fst ?none, snd ?none)"
    by simp
  note empty = BulkLookup_batching [OF none, THEN conjunct2, THEN conjunct2, THEN conjunct2,
    THEN conjunct2, THEN conjunct2, THEN conjunct2, THEN conjunct2, THEN conjunct2,
    THEN mp, OF refl]
  have down: "?down = (fst ?down, snd ?down)"
    by simp
  have err: "fst ?down = Inl (BulkLookupFailedStatus 503)"
    by (simp add: bulk_eval unavailable_stub_def)
  note failed = BulkLookup_batching [OF down, THEN conjunct2, THEN conjunct2, THEN conjunct2,
    THEN conjunct2, THEN conjunct2, THEN conjunct2, THEN conjunct1, rule_format, OF err,
    THEN conjunct2]
  from ok sizes [rule_format, OF conjI [OF m len]] every [rule_format, OF m]
    empty [THEN conjunct1] empty [THEN conjunct2] err failed
  show ?thesis
    by (intro conjI)
qed

text \<open>
  The claim as it is written fails where a batch fails: with 250 inputs and a backend that
  answers 503, one call of 100 elements is made, not three.
\<close>

theorem BulkLookup_batching_counterexample:
  "map (length \<circ> fst)
     (calls (snd (BulkLookup unavailable_stub (replicate 250 ''pkg:npm/lodash'') (init ())))) =
     [100] \<and>
   fst (BulkLookup unavailable_stub (replicate 250 ''pkg:npm/lodash'') (init ())) =
     Inl (BulkLookupFailedStatus 503)"
  by (simp add: bulk_eval unavailable_stub_def)

text \<open>
  Claim C3, as the code has it. When some call of a bulk lookup fails, by an error of the
  transport or a status other than 200, \<open>BulkLookup\<close> returns an error and no mapping.
  The error wraps the error of the transport when the transport failed; it carries the
  message of the backend when the response has an embedded error message, and the status
  of the response otherwise.
\<close>

theorem BulkLookup_batch_failure:
  assumes "BulkLookup stub purls (init s) = (res, w)"
    and "(batch, r) \<in> set (calls w)"
    and "batch_failed r"
  shows "(\<exists>e. res = Inl e) \<and>
         (\<forall>err. r = Inl err \<longrightarrow> res = Inl (BulkLookupTransport err)) \<and>
         (\<forall>resp msg. r = Inr resp \<and> embedded_error resp = Some msg \<longrightarrow>
            res = Inl (BulkLookupFailedMessage msg)) \<and>
         (\<forall>resp. r = Inr resp \<and> embedded_error resp = None \<longrightarrow>
            res = Inl (BulkLookupFailedStatus (StatusCode resp)))"
proof -
  have notok: "\<And>m. res \<noteq> Inr m"
    using BulkLookup_trace(4) [OF assms(1)] assms(2,3) by fastforce
  then obtain e where e: "res = Inl e"
    by (cases res) auto
  from BulkLookup_trace(6) [OF assms(1) e] have
    ne: "calls w \<noteq> []" and err: "e = bulk_error (snd (last (calls w)))"
    by simp_all
  have "(batch, r) \<notin> set (butlast (calls w))"
    using BulkLookup_trace(2) [OF assms(1)] assms(3) by fastforce
  moreover have "set (calls w) = insert (last (calls w)) (set (butlast (calls w)))"
    using ne by (metis append_butlast_last_id list.simps(15) rotate1.simps(2) set_rotate1)
  ultimately have "last (calls w) = (batch, r)"
    using assms(2) by auto
  with err e have "res = Inl (bulk_error r)" by simp
  then show ?thesis
    by (auto simp: bulk_error_def)
qed

theorem BulkLookup_batch_failure_witness:
  "([''pkg:npm/lodash''],
    Inr \<lparr>StatusCode = 400, JSON200 = None, JSON400 = Some \<lparr>Error = Some ''invalid purl''\<rparr>\<rparr>)
     \<in> set (calls (snd (BulkLookup rejecting_stub (replicate 101 ''pkg:npm/lodash'') (init 0)))) \<and>
   batch_failed
     (Inr \<lparr>StatusCode = 400, JSON200 = None, JSON400 = Some \<lparr>Error = Some ''invalid purl''\<rparr>\<rparr>) \<and>
   fst (BulkLookup rejecting_stub (replicate 101 ''pkg:npm/lodash'') (init 0)) =
     Inl (BulkLookupFailedMessage ''invalid purl'') \<and>
   fst (BulkLookup unavailable_stub [''pkg:npm/lodash''] (init ())) =
     Inl (BulkLookupFailedStatus 503) \<and>
   fst (BulkLookup offline_stub [''pkg:npm/lodash''] (init ())) =
     Inl (BulkLookupTransport ''connection refused'')"
proof -
  let ?run = "BulkLookup rejecting_stub (replicate 101 ''pkg:npm/lodash'') (init 0)"
  let ?resp = "\<lparr>StatusCode = 400, JSON200 = None,
                 JSON400 = Some \<lparr>Error = Some ''invalid purl''\<rparr>\<rparr>"
  have run: "?run = (fst ?run, snd ?run)"
    by simp
  have sent: "([''pkg:npm/lodash''], Inr ?resp) \<in> set (calls (snd ?run))"
    by (simp add: rejecting_run)
  have failed: "batch_failed (Inr ?resp)"
    by (simp add: batch_failed_def)
  have msg: "Inr ?resp = Inr ?resp \<and> embedded_error ?resp = Some ''invalid purl''"
    by (simp add: embedded_error_def)
  note rejected = BulkLookup_batch_failure [OF run sent failed, THEN conjunct2,
    THEN conjunct2, THEN conjunct1, rule_format, OF msg]
  let ?down = "BulkLookup unavailable_stub [''pkg:npm/lodash''] (init ())"
  let ?busy = "\<lparr>StatusCode = 503, JSON200 = None, JSON400 = None\<rparr>"
  have down: "?down = (fst ?down, snd ?down)"
    by simp
  have down_sent: "([''pkg:npm/lodash''], Inr ?busy) \<in> set (calls (snd ?down))"
    by (simp add: bulk_eval unavailable_stub_def)
  have down_failed: "batch_failed (Inr ?busy)"
    by (simp add: batch_failed_def)
  have plain: "Inr ?busy = Inr ?busy \<and> embedded_error ?busy = None"
    by (simp add: embedded_error_def)
  have status: "fst ?down = Inl (BulkLookupFailedStatus 503)"
    using BulkLookup_batch_failure [OF down down_sent down_failed, THEN conjunct2,
      THEN conjunct2, THEN conjunct2, rule_format, OF plain]
    by simp
  let ?off = "BulkLookup offline_stub [''pkg:npm/lodash''] (init ())"
  have off: "?off = (fst ?off, snd ?off)"
    by simp
  have off_sent: "([''pkg:npm/lodash''], Inl ''connection refused'') \<in> set (calls (snd ?off))"
    by (simp add: bulk_eval offline_stub_def)
  have off_failed: "batch_failed (Inl ''connection refused'')"
    by (simp add: batch_failed_def)
  note refused = BulkLookup_batch_failure [OF off off_sent off_failed, THEN conjunct2,
    THEN conjunct1, rule_format, OF refl]
  from sent failed rejected status refused show ?thesis
    by (intro conjI)
qed

text \<open>
  The claim as it is written fails where the transport fails: there is no response, and
  the error wraps the error of the transport instead of carrying a status.
\<close>

theorem BulkLookup_transport_failure_counterexample:
  "BulkLookup offline_stub [''pkg:gem/rails''] (init ()) =
     (Inl (BulkLookupTransport ''connection refused''),
      \<lparr>backend = (), calls = [([''pkg:gem/rails''], Inl ''connection refused'')]\<rparr>)"
  by (simp add: bulk_eval offline_stub_def)

text \<open>
  What the code computes: the mapping of a successful bulk lookup is keyed by the \<open>Purl\<close>
  field of the records the backend returned, whatever the input strings were. A key maps to
  the last returned record with that \<open>Purl\<close>.
\<close>

lemma BulkLookup_results_keys:
  assumes "BulkLookup stub purls (init s) = (Inr m, w)"
  shows "(\<forall>k. m k = (case filter (\<lambda>pkg. Purl pkg = k) (returned_packages w) of
                      [] \<Rightarrow> None | p # ps \<Rightarrow> Some (last (p # ps)))) \<and>
         (\<forall>k pkg. m k = Some pkg \<longrightarrow> Purl pkg = k \<and> pkg \<in> set (returned_packages w)) \<and>
         (\<forall>pkg \<in> set (returned_packages w). m (Purl pkg) \<noteq> None) \<and>
         (\<forall>pkg \<in> set (returned_packages w).
            (\<forall>pkg' \<in> set (returned_packages w). Purl pkg' = Purl pkg \<longrightarrow> pkg' = pkg) \<longrightarrow>
            m (Purl pkg) = Some pkg)"
proof -
  let ?ps = "returned_packages w"
  have m: "m = store_packages Map.empty ?ps"
    using BulkLookup_trace(5) [OF assms] by simp
  have look: "\<And>k. m k = (case filter (\<lambda>pkg. Purl pkg = k) ?ps of
                      [] \<Rightarrow> None | p # ps \<Rightarrow> Some (last (p # ps)))"
    unfolding m by (simp add: store_packages_lookup)
  have sound: "\<And>k pkg. m k = Some pkg \<Longrightarrow> Purl pkg = k \<and> pkg \<in> set ?ps"
  proof -
    fix k pkg
    assume "m k = Some pkg"
    then obtain p qs where f: "filter (\<lambda>pkg. Purl pkg = k) ?ps = p # qs"
      and l: "pkg = last (p # qs)"
      using look [of k] by (auto split: list.splits)
    have "last (p # qs) \<in> set (p # qs)" by (rule last_in_set) simp
    then have "pkg \<in> set (filter (\<lambda>pkg. Purl pkg = k) ?ps)" using f l by simp
    then show "Purl pkg = k \<and> pkg \<in> set ?ps" by simp
  qed
  have complete: "\<And>pkg. pkg \<in> set ?ps \<Longrightarrow> m (Purl pkg) \<noteq> None"
  proof -
    fix pkg
    assume "pkg \<in> set ?ps"
    then have "filter (\<lambda>p. Purl p = Purl pkg) ?ps \<noteq> []"
      by (auto simp: filter_empty_conv)
    then show "m (Purl pkg) \<noteq> None"
      using look [of "Purl pkg"] by (auto split: list.splits)
  qed
  have unique: "\<And>pkg. pkg \<in> set ?ps \<Longrightarrow>
      (\<forall>pkg' \<in> set ?ps. Purl pkg' = Purl pkg \<longrightarrow> pkg' = pkg) \<Longrightarrow> m (Purl pkg) = Some pkg"
  proof -
    fix pkg
    assume "pkg \<in> set ?ps" and u: "\<forall>pkg' \<in> set ?ps. Purl pkg' = Purl pkg \<longrightarrow> pkg' = pkg"
    from complete [OF this(1)] obtain q where q: "m (Purl pkg) = Some q" by auto
    from sound [OF q] u have "q = pkg" by auto
    with q show "m (Purl pkg) = Some pkg" by simp
  qed
  from look sound complete unique show ?thesis by blast
qed

text \<open>
  Claim C1. The mapping is to be keyed by the PURL strings as the caller supplied them, and
  \<open>Lookup\<close> reads it so, with the caller's string. \<open>BulkLookup\<close> stores each record under
  the \<open>Purl\<close> field of the response instead. For the input \<^verbatim>\<open>pkg:gem/rails@7.0.0\<close> and a
  backend that finds the package and reports it as \<^verbatim>\<open>pkg:gem/rails\<close>, the record is returned
  by the backend and stored under \<^verbatim>\<open>pkg:gem/rails\<close>; the mapping has nothing under the input
  string, and \<open>Lookup\<close> of that string returns nil and no error after the same answer of the
  backend.
\<close>

theorem BulkLookup_keyed_by_input_failure:
  "fst (BulkLookup catalog_stub [''pkg:gem/rails@7.0.0''] (init ())) =
     Inr [''pkg:gem/rails'' \<mapsto>
            \<lparr>Purl = ''pkg:gem/rails'', Package_Name = ''rails'', Ecosystem = ''rubygems''\<rparr>] \<and>
   returned_packages (snd (BulkLookup catalog_stub [''pkg:gem/rails@7.0.0''] (init ()))) =
     [\<lparr>Purl = ''pkg:gem/rails'', Package_Name = ''rails'', Ecosystem = ''rubygems''\<rparr>] \<and>
   [''pkg:gem/rails'' \<mapsto>
      \<lparr>Purl = ''pkg:gem/rails'', Package_Name = ''rails'', Ecosystem = ''rubygems''\<rparr>]
     ''pkg:gem/rails@7.0.0'' = None \<and>
   fst (Lookup catalog_stub ''pkg:gem/rails@7.0.0'' (init ())) = Inr None \<and>
   returned_packages (snd (Lookup catalog_stub ''pkg:gem/rails@7.0.0'' (init ()))) =
     [\<lparr>Purl = ''pkg:gem/rails'', Package_Name = ''rails'', Ecosystem = ''rubygems''\<rparr>]"
  by (simp add: Lookup_def bulk_eval returned_packages_def catalog_stub_def catalog_def
        strip_version_def)

subsection \<open>GetAllVersions\<close>

lemma GetAllVersions_loop_full:
  assumes "stub s (versions_request registry name perPage page) = (r, s')"
    and "full_page perPage r"
  shows "GetAllVersions_loop stub registry name perPage page acc \<lparr>backend = s, calls = cs\<rparr> =
         GetAllVersions_loop stub registry name perPage (page + 1) (acc @ versions_of r)
           \<lparr>backend = s', calls = cs @ [(versions_request registry name perPage page, r)]\<rparr>"
  using assms
  by (subst GetAllVersions_loop.simps)
     (auto simp: roundtrip_def versions_request_def full_page_def versions_of_def
           split: sum.splits option.splits)

lemma GetAllVersions_loop_stop:
  assumes "stub s (versions_request registry name perPage page) = (r, s')"
    and "\<not> full_page perPage r"
  shows "GetAllVersions_loop stub registry name perPage page acc \<lparr>backend = s, calls = cs\<rparr> =
         Some (stop_result acc r,
           \<lparr>backend = s', calls = cs @ [(versions_request registry name perPage page, r)]\<rparr>)"
  using assms
  by (subst GetAllVersions_loop.simps)
     (auto simp: roundtrip_def versions_request_def full_page_def versions_of_def stop_result_def
           split: sum.splits option.splits)

lemma stub_page:
  "stub (page_state stub registry name perPage page s k)
     (versions_request registry name perPage (page + int k)) =
   (page_reply stub registry name perPage page s k,
    page_state stub registry name perPage page s (Suc k))"
  by (simp add: page_reply_def)

lemma GetAllVersions_loop_unroll:
  assumes "\<forall>k<n. full_page perPage (page_reply stub registry name perPage page s k)"
  shows "GetAllVersions_loop stub registry name perPage page acc \<lparr>backend = s, calls = cs\<rparr> =
         GetAllVersions_loop stub registry name perPage (page + int n)
           (acc @ page_records stub registry name perPage page s n)
           \<lparr>backend = page_state stub registry name perPage page s n,
            calls = cs @ page_calls stub registry name perPage page s n\<rparr>"
  using assms
proof (induction n)
  case 0
  then show ?case by (simp add: page_calls_def page_records_def)
next
  case (Suc n)
  then have full: "full_page perPage (page_reply stub registry name perPage page s n)"
    and IH: "GetAllVersions_loop stub registry name perPage page acc \<lparr>backend = s, calls = cs\<rparr> =
         GetAllVersions_loop stub registry name perPage (page + int n)
           (acc @ page_records stub registry name perPage page s n)
           \<lparr>backend = page_state stub registry name perPage page s n,
            calls = cs @ page_calls stub registry name perPage page s n\<rparr>"
    by simp_all
  show ?case
    unfolding IH
      GetAllVersions_loop_full [where stub = stub and r = "page_reply stub registry name perPage page s n",
        OF stub_page full]
    by (simp add: page_calls_def page_records_def ac_simps del: page_state.simps)
qed

lemma GetAllVersions_loop_run:
  assumes "\<forall>k<n. full_page perPage (page_reply stub registry name perPage page s k)"
    and "\<not> full_page perPage (page_reply stub registry name perPage page s n)"
  shows "GetAllVersions_loop stub registry name perPage page acc \<lparr>backend = s, calls = cs\<rparr> =
         Some (stop_result (acc @ page_records stub registry name perPage page s n)
                 (page_reply stub registry name perPage page s n),
           \<lparr>backend = page_state stub registry name perPage page s (Suc n),
            calls = cs @ page_calls stub registry name perPage page s (Suc n)\<rparr>)"
  unfolding GetAllVersions_loop_unroll [OF assms(1)]
    GetAllVersions_loop_stop [where stub = stub and r = "page_reply stub registry name perPage page s n",
      OF stub_page assms(2)]
  by (simp add: page_calls_def del: page_state.simps)

lemma page_state_shift:
  "page_state stub registry name perPage (page + 1)
     (snd (stub s (versions_request registry name perPage page))) k =
   page_state stub registry name perPage page s (Suc k)"
proof (induction k)
  case 0
  show ?case by simp
next
  case (Suc k)
  have "page + 1 + int k = page + int (Suc k)" by simp
  then show ?case
    using Suc.IH by (simp only: page_state.simps)
qed

lemma page_reply_shift:
  "page_reply stub registry name perPage (page + 1)
     (snd (stub s (versions_request registry name perPage page))) k =
   page_reply stub registry name perPage page s (Suc k)"
proof -
  have "page + 1 + int k = page + int (Suc k)" by simp
  then show ?thesis
    unfolding page_reply_def page_state_shift by (simp add: ac_simps)
qed

lemma GetAllVersions_loop_Some_stops:
  assumes "GetAllVersions_loop stub registry name perPage page acc w = Some y"
  shows "\<exists>n. \<not> full_page perPage (page_reply stub registry name perPage page (backend w) n)"
proof (rule GetAllVersions_loop.raw_induct
    [where P = "\<lambda>stub registry name perPage page acc w y.
       \<exists>n. \<not> full_page perPage (page_reply stub registry name perPage page (backend w) n)",
     OF _ assms], goal_cases)
  case (1 loop stub registry name perPage page acc w y)
  note IH = "1"(1) and body = "1"(2)
  obtain r s' where st: "stub (backend w) (versions_request registry name perPage page) = (r, s')"
    by (cases "stub (backend w) (versions_request registry name perPage page)")
  have r0: "page_reply stub registry name perPage page (backend w) 0 = r"
    using st by (simp add: page_reply_def)
  show ?case
  proof (cases "full_page perPage r")
    case False
    with r0 show ?thesis by blast
  next
    case True
    then obtain resp vs where r: "r = Inr resp" and ok: "StatusCode resp = 200"
      and vs: "JSON200 resp = Some vs" "vs \<noteq> []" "perPage \<le> int (length vs)"
      by (auto simp: full_page_def split: sum.splits option.splits)
    from body st r ok vs have
      "loop stub registry name perPage (page + 1) (acc @ vs)
         \<lparr>backend = s', calls = calls w @ [(versions_request registry name perPage page, r)]\<rparr> = Some y"
      by (simp add: roundtrip_def versions_request_def)
    from IH [OF this] obtain n where
      "\<not> full_page perPage (page_reply stub registry name perPage (page + 1) s' n)"
      by auto
    moreover have "s' = snd (stub (backend w) (versions_request registry name perPage page))"
      using st by simp
    ultimately have
      "\<not> full_page perPage (page_reply stub registry name perPage page (backend w) (Suc n))"
      by (simp add: page_reply_shift)
    then show ?thesis by blast
  qed
qed

lemma GetAllVersions_loop_None:
  assumes "\<forall>n. full_page perPage (page_reply stub registry name perPage page (backend w) n)"
  shows "GetAllVersions_loop stub registry name perPage page acc w = None"
proof (cases "GetAllVersions_loop stub registry name perPage page acc w")
  case None
  then show ?thesis .
next
  case (Some y)
  from GetAllVersions_loop_Some_stops [OF this] assms show ?thesis by blast
qed

lemma GetAllVersions_run:
  assumes "\<forall>k<n. full_page 100 (page_reply stub registry name 100 1 s k)"
    and "\<not> full_page 100 (page_reply stub registry name 100 1 s n)"
  shows "GetAllVersions stub registry name (init s) =
         Some (stop_result (page_records stub registry name 100 1 s n)
                 (page_reply stub registry name 100 1 s n),
           \<lparr>backend = page_state stub registry name 100 1 s (Suc n),
            calls = page_calls stub registry name 100 1 s (Suc n)\<rparr>)"
  unfolding GetAllVersions_def init_def
  using GetAllVersions_loop_run [OF assms, of "[]" "[]"] by simp

lemma full_page_records:
  assumes "\<forall>k<n. full_page perPage (page_reply stub registry name perPage page s k)"
  shows "int n * perPage \<le> int (length (page_records stub registry name perPage page s n))"
  using assms
proof (induction n)
  case 0
  then show ?case by (simp add: page_records_def)
next
  case (Suc n)
  then have "full_page perPage (page_reply stub registry name perPage page s n)"
    by simp
  then have "perPage \<le> int (length (versions_of (page_reply stub registry name perPage page s n)))"
    by (auto simp: full_page_def versions_of_def split: sum.splits option.splits)
  moreover have "int n * perPage \<le> int (length (page_records stub registry name perPage page s n))"
    using Suc by simp
  ultimately show ?case
    by (simp add: page_records_def algebra_simps)
qed

lemmas versions_eval =
  page_reply_def page_calls_def page_records_def versions_request_def full_page_def
  versions_of_def init_def

lemma all_less_2: "(\<forall>k<2. P k) = (P (0::nat) \<and> P (Suc 0))"
  by (auto simp: less_2_cases_iff)

text \<open>
  Claim C4, as the code has it. \<open>GetAllVersions\<close> asks for pages of size 100, starting at
  page 1 and in order, and stops at the first answer that is not a full page: a page with
  fewer than 100 records or none, or a failed request. When that last answer is a 200
  response, the result is the concatenation, in order, of the records of the pages fetched.
  When every answer is a full page the call never returns, and a call that returns has
  stopped at the first answer that is not a full page.
\<close>

theorem GetAllVersions_pagination:
  "((\<forall>k<n. full_page 100 (page_reply stub registry name 100 1 s k)) \<and>
    \<not> full_page 100 (page_reply stub registry name 100 1 s n) \<longrightarrow>
      (\<exists>res w. GetAllVersions stub registry name (init s) = Some (res, w) \<and>
         map fst (calls w) =
           map (\<lambda>k. (registry, name, \<lparr>Page = 1 + int k, PerPage = 100\<rparr>)) [0..<Suc n] \<and>
         map snd (calls w) = map (page_reply stub registry name 100 1 s) [0..<Suc n] \<and>
         (\<forall>resp. page_reply stub registry name 100 1 s n = Inr resp \<and> StatusCode resp = 200 \<longrightarrow>
            res = Inr (concat (map (\<lambda>k. versions_of (page_reply stub registry name 100 1 s k))
                                [0..<Suc n]))))) \<and>
   ((\<forall>k. full_page 100 (page_reply stub registry name 100 1 s k)) \<longrightarrow>
      GetAllVersions stub registry name (init s) = None) \<and>
   (GetAllVersions stub registry name (init s) = Some (res', w') \<longrightarrow>
      (\<exists>m. (\<forall>k<m. full_page 100 (page_reply stub registry name 100 1 s k)) \<and>
           \<not> full_page 100 (page_reply stub registry name 100 1 s m) \<and>
           length (calls w') = Suc m))"
proof (intro conjI impI)
  assume h: "(\<forall>k<n. full_page 100 (page_reply stub registry name 100 1 s k)) \<and>
    \<not> full_page 100 (page_reply stub registry name 100 1 s n)"
  let ?w = "\<lparr>backend = page_state stub registry name 100 1 s (Suc n),
            calls = page_calls stub registry name 100 1 s (Suc n)\<rparr>"
  let ?res = "stop_result (page_records stub registry name 100 1 s n)
                 (page_reply stub registry name 100 1 s n)"
  have run: "GetAllVersions stub registry name (init s) = Some (?res, ?w)"
    using h by (intro GetAllVersions_run) simp_all
  have "map fst (calls ?w) =
           map (\<lambda>k. (registry, name, \<lparr>Page = 1 + int k, PerPage = 100\<rparr>)) [0..<Suc n]"
    by (simp add: page_calls_def versions_request_def)
  moreover have "map snd (calls ?w) = map (page_reply stub registry name 100 1 s) [0..<Suc n]"
    by (simp add: page_calls_def comp_def)
  moreover have "\<forall>resp. page_reply stub registry name 100 1 s n = Inr resp \<and> StatusCode resp = 200 \<longrightarrow>
            ?res = Inr (concat (map (\<lambda>k. versions_of (page_reply stub registry name 100 1 s k))
                                [0..<Suc n]))"
    by (simp add: stop_result_def page_records_def)
  ultimately show "\<exists>res w. GetAllVersions stub registry name (init s) = Some (res, w) \<and>
         map fst (calls w) =
           map (\<lambda>k. (registry, name, \<lparr>Page = 1 + int k, PerPage = 100\<rparr>)) [0..<Suc n] \<and>
         map snd (calls w) = map (page_reply stub registry name 100 1 s) [0..<Suc n] \<and>
         (\<forall>resp. page_reply stub registry name 100 1 s n = Inr resp \<and> StatusCode resp = 200 \<longrightarrow>
            res = Inr (concat (map (\<lambda>k. versions_of (page_reply stub registry name 100 1 s k))
                                [0..<Suc n])))"
    using run by blast
next
  assume "\<forall>k. full_page 100 (page_reply stub registry name 100 1 s k)"
  then show "GetAllVersions stub registry name (init s) = None"
    unfolding GetAllVersions_def by (intro GetAllVersions_loop_None) (simp add: init_def)
next
  assume ret: "GetAllVersions stub registry name (init s) = Some (res', w')"
  then have "\<exists>n. \<not> full_page 100 (page_reply stub registry name 100 1 s n)"
    unfolding GetAllVersions_def
    using GetAllVersions_loop_Some_stops [of stub registry name 100 1 "[]" "init s" "(res', w')"]
    by (simp add: init_def)
  then obtain n where n: "\<not> full_page 100 (page_reply stub registry name 100 1 s n)" ..
  define m where "m = (LEAST n. \<not> full_page 100 (page_reply stub registry name 100 1 s n))"
  have m1: "\<not> full_page 100 (page_reply stub registry name 100 1 s m)"
    unfolding m_def using n by (rule LeastI)
  have m2: "\<forall>k<m. full_page 100 (page_reply stub registry name 100 1 s k)"
    unfolding m_def using not_less_Least by blast
  from GetAllVersions_run [OF m2 m1] ret have "length (calls w') = Suc m"
    by (auto simp: page_calls_def)
  with m1 m2 show "\<exists>m. (\<forall>k<m. full_page 100 (page_reply stub registry name 100 1 s k)) \<and>
           \<not> full_page 100 (page_reply stub registry name 100 1 s m) \<and>
           length (calls w') = Suc m"
    by blast
qed

theorem GetAllVersions_pagination_witness:
  "(\<exists>w. GetAllVersions paged_stub ''rubygems.org'' ''rake'' (init ()) =
         Some (Inr (replicate 100 1 @ replicate 100 2 @ replicate 50 3), w) \<and>
       map fst (calls w) =
         [(''rubygems.org'', ''rake'', \<lparr>Page = 1, PerPage = 100\<rparr>),
          (''rubygems.org'', ''rake'', \<lparr>Page = 2, PerPage = 100\<rparr>),
          (''rubygems.org'', ''rake'', \<lparr>Page = 3, PerPage = 100\<rparr>)] \<and>
       (\<exists>m. \<not> full_page 100 (page_reply paged_stub ''rubygems.org'' ''rake'' 100 1 () m) \<and>
            length (calls w) = Suc m)) \<and>
   GetAllVersions endless_stub ''rubygems.org'' ''rake'' (init ()) = None"
proof -
  have r0: "page_reply paged_stub ''rubygems.org'' ''rake'' 100 1 () 0 =
      Inr \<lparr>StatusCode = 200, JSON200 = Some (replicate 100 1)\<rparr>"
    by (simp add: versions_eval paged_stub_def)
  have r1: "page_reply paged_stub ''rubygems.org'' ''rake'' 100 1 () (Suc 0) =
      Inr \<lparr>StatusCode = 200, JSON200 = Some (replicate 100 2)\<rparr>"
    by (simp add: versions_eval paged_stub_def)
  have r2: "page_reply paged_stub ''rubygems.org'' ''rake'' 100 1 () 2 =
      Inr \<lparr>StatusCode = 200, JSON200 = Some (replicate 50 3)\<rparr>"
    by (simp add: versions_eval paged_stub_def)
  have full: "\<forall>k<2. full_page 100 (page_reply paged_stub ''rubygems.org'' ''rake'' 100 1 () k)"
    unfolding all_less_2 r0 r1 by (simp add: full_page_def)
  have stop: "\<not> full_page 100 (page_reply paged_stub ''rubygems.org'' ''rake'' 100 1 () 2)"
    unfolding r2 by (simp add: full_page_def)
  have endless: "\<forall>k. full_page 100 (page_reply endless_stub ''rubygems.org'' ''rake'' 100 1 () k)"
    by (simp add: page_reply_def endless_stub_def full_page_def)
  have upt3: "[0..<Suc 2] = [0, Suc 0, 2]"
    by (simp add: upt_rec numeral_2_eq_2)
  from GetAllVersions_pagination [where n = 2 and stub = paged_stub
      and registry = "''rubygems.org''" and name = "''rake''" and s = "()"
      and res' = "Inr []" and w' = "init ()", THEN conjunct1, rule_format,
      OF conjI [OF full stop]]
  obtain res w where
    run: "GetAllVersions paged_stub ''rubygems.org'' ''rake'' (init ()) = Some (res, w)" and
    reqs: "map fst (calls w) =
           map (\<lambda>k. (''rubygems.org'', ''rake'', \<lparr>Page = 1 + int k, PerPage = 100\<rparr>))
             [0..<Suc 2]" and
    cat: "\<forall>resp. page_reply paged_stub ''rubygems.org'' ''rake'' 100 1 () 2 = Inr resp \<and>
            StatusCode resp = 200 \<longrightarrow>
            res = Inr (concat (map (\<lambda>k. versions_of
              (page_reply paged_stub ''rubygems.org'' ''rake'' 100 1 () k)) [0..<Suc 2]))"
    by blast
  from cat r2 have
    "res = Inr (concat (map (\<lambda>k. versions_of
              (page_reply paged_stub ''rubygems.org'' ''rake'' 100 1 () k)) [0..<Suc 2]))"
    by simp
  then have "res = Inr (replicate 100 1 @ replicate 100 2 @ replicate 50 3)"
    unfolding upt3 by (simp add: r0 r1 r2 versions_of_def)
  moreover from reqs have "map fst (calls w) =
         [(''rubygems.org'', ''rake'', \<lparr>Page = 1, PerPage = 100\<rparr>),
          (''rubygems.org'', ''rake'', \<lparr>Page = 2, PerPage = 100\<rparr>),
          (''rubygems.org'', ''rake'', \<lparr>Page = 3, PerPage = 100\<rparr>)]"
    unfolding upt3 by simp
  moreover from GetAllVersions_pagination [where stub = paged_stub
      and registry = "''rubygems.org''" and name = "''rake''" and s = "()"
      and n = 2 and res' = res and w' = w, THEN conjunct2, THEN conjunct2, THEN mp, OF run]
  obtain m where
    "\<not> full_page 100 (page_reply paged_stub ''rubygems.org'' ''rake'' 100 1 () m) \<and>
     length (calls w) = Suc m"
    by (elim exE conjE) (rule that, rule conjI)
  then have "\<exists>m. \<not> full_page 100 (page_reply paged_stub ''rubygems.org'' ''rake'' 100 1 () m) \<and>
       length (calls w) = Suc m"
    by (rule exI)
  ultimately have "\<exists>w. GetAllVersions paged_stub ''rubygems.org'' ''rake'' (init ()) =
         Some (Inr (replicate 100 1 @ replicate 100 2 @ replicate 50 3), w) \<and>
       map fst (calls w) =
         [(''rubygems.org'', ''rake'', \<lparr>Page = 1, PerPage = 100\<rparr>),
          (''rubygems.org'', ''rake'', \<lparr>Page = 2, PerPage = 100\<rparr>),
          (''rubygems.org'', ''rake'', \<lparr>Page = 3, PerPage = 100\<rparr>)] \<and>
       (\<exists>m. \<not> full_page 100 (page_reply paged_stub ''rubygems.org'' ''rake'' 100 1 () m) \<and>
            length (calls w) = Suc m)"
    using run by (intro exI [of _ w]) simp
  moreover from GetAllVersions_pagination [where stub = endless_stub
      and registry = "''rubygems.org''" and name = "''rake''" and s = "()"
      and n = 0 and res' = "Inr []" and w' = "init ()"] endless
  have "GetAllVersions endless_stub ''rubygems.org'' ''rake'' (init ()) = None"
    by simp
  ultimately show ?thesis by simp
qed

text \<open>
  The claim as it is written fails where a later page is answered 404: after a first page
  of 100 records and a second page answered 404 the result is the nil sequence, not the
  records of the first page.
\<close>

theorem GetAllVersions_concatenation_counterexample:
  "GetAllVersions (deleted_after 1) ''rubygems.org'' ''rake'' (init 0) =
     Some (Inr [],
       \<lparr>backend = 2,
        calls = [((''rubygems.org'', ''rake'', \<lparr>Page = 1, PerPage = 100\<rparr>),
                  Inr \<lparr>StatusCode = 200, JSON200 = Some (replicate 100 0)\<rparr>),
                 ((''rubygems.org'', ''rake'', \<lparr>Page = 2, PerPage = 100\<rparr>),
                  Inr \<lparr>StatusCode = 404, JSON200 = None\<rparr>)]\<rparr>)"
proof -
  have full: "\<forall>k<1. full_page 100 (page_reply (deleted_after 1) ''rubygems.org'' ''rake'' 100 1 0 k)"
    by (simp add: versions_eval deleted_after_def)
  have stop: "\<not> full_page 100 (page_reply (deleted_after 1) ''rubygems.org'' ''rake'' 100 1 0 1)"
    by (simp add: versions_eval deleted_after_def)
  show ?thesis
    unfolding GetAllVersions_run [OF full stop]
    by (simp add: versions_eval stop_result_def deleted_after_def)
qed

text \<open>
  Claim C10. When the pages before it were full pages and a page is answered 404, on the
  first page or on any later one, \<open>GetAllVersions\<close> returns the nil sequence and no error;
  the records of the earlier pages, at least 100 for each of them, are not returned.
\<close>

theorem GetAllVersions_404_any_page:
  assumes "\<forall>k<n. full_page 100 (page_reply stub registry name 100 1 s k)"
    and "page_reply stub registry name 100 1 s n = Inr resp"
    and "StatusCode resp = 404"
  shows "\<exists>w. GetAllVersions stub registry name (init s) = Some (Inr [], w) \<and>
             calls w = page_calls stub registry name 100 1 s (Suc n) \<and>
             snd (last (calls w)) = Inr resp \<and>
             100 * n \<le> length (page_records stub registry name 100 1 s n)"
proof -
  have nf: "\<not> full_page 100 (page_reply stub registry name 100 1 s n)"
    using assms(2,3) by (simp add: full_page_def)
  have "stop_result (page_records stub registry name 100 1 s n)
          (page_reply stub registry name 100 1 s n) = Inr []"
    using assms(2,3) by (simp add: stop_result_def)
  moreover have "100 * n \<le> length (page_records stub registry name 100 1 s n)"
    using full_page_records [OF assms(1)] by simp
  moreover have "snd (last (page_calls stub registry name 100 1 s (Suc n))) = Inr resp"
    using assms(2) by (simp add: page_calls_def)
  ultimately show ?thesis
    using GetAllVersions_run [OF assms(1) nf] by simp
qed

theorem GetAllVersions_404_any_page_witness:
  "full_page 100 (page_reply (deleted_after 2) ''rubygems.org'' ''rake'' 100 1 0 0) \<and>
   full_page 100 (page_reply (deleted_after 2) ''rubygems.org'' ''rake'' 100 1 0 (Suc 0)) \<and>
   page_reply (deleted_after 2) ''rubygems.org'' ''rake'' 100 1 0 2 =
     Inr \<lparr>StatusCode = 404, JSON200 = None\<rparr> \<and>
   (\<exists>w. GetAllVersions (deleted_after 2) ''rubygems.org'' ''rake'' (init 0) = Some (Inr [], w) \<and>
        length (calls w) = 3) \<and>
   200 \<le> length (page_records (deleted_after 2) ''rubygems.org'' ''rake'' 100 1 0 2)"
proof -
  have full: "\<forall>k<2. full_page 100 (page_reply (deleted_after 2) ''rubygems.org'' ''rake'' 100 1 0 k)"
    by (simp add: all_less_2 versions_eval deleted_after_def)
  have last: "page_reply (deleted_after 2) ''rubygems.org'' ''rake'' 100 1 0 2 =
     Inr \<lparr>StatusCode = 404, JSON200 = None\<rparr>"
    by (simp add: versions_eval deleted_after_def numeral_2_eq_2)
  from GetAllVersions_404_any_page [OF full last] full last show ?thesis
    by (auto simp: page_calls_def all_less_2)
qed

end
